theory Spec2Isabelle
  imports Main
begin

section \<open>Faults\<close>

text \<open>
  Every exception that the modelled Python code (or the modelled fragment of the Python
  run time) can raise is a value of \<open>pyerr\<close>; a fallible function returns
  \<open>pyerr + 'a\<close> with \<open>Inl\<close> for the raised exception.  \<open>NotModelled\<close> marks Python
  behaviour that lies outside the modelled fragment (floats, user classes, ...), and
  \<open>OutOfFuel\<close> an evaluation that was cut off by its step budget.
\<close>

datatype pyerr =
    ZeroDivisionError
  | AssertionError
  | NotImplementedError
  | IndexError
  | KeyError
  | TypeError
  | NameError
  | ValueError
  | AttributeError
  | UnboundLocalError
  | SyntaxError
  | OverflowError
  | OtherError string
  | NotModelled
  | OutOfFuel

section \<open>Python string primitives used by the text-level helpers\<close>

definition newline :: char where
  "newline = CHR 0x0A"

definition dquote :: char where
  "dquote = CHR 0x22"

definition squote :: char where
  "squote = CHR 0x27"

text \<open>\<open>s.startswith(sub)\<close>.\<close>

definition startswith :: "string \<Rightarrow> string \<Rightarrow> bool" where
  "startswith s sub = (take (length sub) s = sub)"

text \<open>
  \<open>s.find(sub, start)\<close> for \<open>start \<ge> 0\<close>: the lowest index \<open>p \<ge> start\<close> at which \<open>sub\<close>
  occurs in \<open>s\<close>; Python's \<open>-1\<close> is \<open>None\<close>.  \<open>find_in sub t k\<close> scans the suffix \<open>t\<close> that
  starts at offset \<open>k\<close>.
\<close>

fun find_in :: "string \<Rightarrow> string \<Rightarrow> nat \<Rightarrow> nat option" where
  "find_in sub [] k = (if sub = [] then Some k else None)"
| "find_in sub (c # cs) k =
     (if startswith (c # cs) sub then Some k else find_in sub cs (Suc k))"

definition py_find :: "string \<Rightarrow> string \<Rightarrow> nat \<Rightarrow> nat option" where
  "py_find s sub start =
     (if length s < start then None else find_in sub (drop start s) start)"

text \<open>\<open>sub in s\<close>.\<close>

definition py_contains :: "string \<Rightarrow> string \<Rightarrow> bool" where
  "py_contains sub s = (py_find s sub 0 \<noteq> None)"

text \<open>
  \<open>s.split(sep)\<close> for a non-empty separator: left to right, non-overlapping.  \<open>cur\<close> is
  the segment read so far.  (Python raises \<open>ValueError\<close> on an empty separator; every
  call in the source passes a non-empty literal.)
\<close>

fun py_split_aux :: "string \<Rightarrow> string \<Rightarrow> string \<Rightarrow> string list" where
  "py_split_aux sep cur [] = [cur]"
| "py_split_aux sep cur (c # cs) =
     (if sep \<noteq> [] \<and> startswith (c # cs) sep
      then cur # py_split_aux sep [] (drop (length sep - 1) cs)
      else py_split_aux sep (cur @ [c]) cs)"

definition py_split :: "string \<Rightarrow> string \<Rightarrow> string list" where
  "py_split s sep = py_split_aux sep [] s"

text \<open>\<open>s.replace(old, new)\<close> for a non-empty \<open>old\<close>: every non-overlapping occurrence,
  left to right.\<close>

fun py_replace :: "string \<Rightarrow> string \<Rightarrow> string \<Rightarrow> string" where
  "py_replace [] old new = []"
| "py_replace (c # cs) old new =
     (if old \<noteq> [] \<and> startswith (c # cs) old
      then new @ py_replace (drop (length old - 1) cs) old new
      else c # py_replace cs old new)"

text \<open>\<open>s.lstrip("\n")\<close>.\<close>

definition lstrip_newlines :: "string \<Rightarrow> string" where
  "lstrip_newlines s = dropWhile (\<lambda>c. c = newline) s"

text \<open>Python slices of a string with an integer bound that may be negative:
  \<open>s[:k]\<close> and \<open>s[k:]\<close>.\<close>

definition slice_to :: "'a list \<Rightarrow> int \<Rightarrow> 'a list" where
  "slice_to s k = (if 0 \<le> k then take (nat k) s else take (nat (int (length s) + k)) s)"

definition slice_from :: "'a list \<Rightarrow> int \<Rightarrow> 'a list" where
  "slice_from s k = (if 0 \<le> k then drop (nat k) s else drop (nat (int (length s) + k)) s)"

text \<open>\<open>s[a:b]\<close> for non-negative \<open>a\<close>, \<open>b\<close>.\<close>

definition substring :: "'a list \<Rightarrow> nat \<Rightarrow> nat \<Rightarrow> 'a list" where
  "substring s a b = take (b - a) (drop a s)"

section \<open>\<open>remove_docstrings\<close>\<close>

text \<open>\<open>[p for i, p in enumerate(parts) if i % 2 == 0]\<close>\<close>

definition even_indexed :: "'a list \<Rightarrow> 'a list" where
  "even_indexed parts = map snd (filter (\<lambda>(i, p). i mod 2 = 0) (enumerate 0 parts))"

definition triple_dquote :: string where
  "triple_dquote = [dquote, dquote, dquote]"

definition triple_squote :: string where
  "triple_squote = [squote, squote, squote]"

text \<open>One pass of the function: \<open>parts = s.split(delim)\<close>, keep by the comprehension
  above, \<open>"".join(parts)\<close>.\<close>

definition strip_pass :: "string \<Rightarrow> string \<Rightarrow> string" where
  "strip_pass delim s = concat (even_indexed (py_split s delim))"

definition remove_docstrings :: "string \<Rightarrow> string" where
  "remove_docstrings s0 =
     (let s = py_replace s0 (''FIX = '' @ triple_dquote) triple_dquote;
          s = strip_pass triple_dquote s;
          s = py_replace s (''FIX = '' @ triple_squote) triple_squote;
          s = strip_pass triple_squote s;
          s = py_replace s ('':'' @ [newline] @ ''    '' @ [newline]) ('':'' @ [newline]);
          s = lstrip_newlines s
      in s)"

section \<open>\<open>extract_calls\<close> and \<open>sub_calls\<close>\<close>

text \<open>
  The body of the inner \<open>for i, c in enumerate(s[idx:])\<close> loop up to the \<open>break\<close> test,
  on the loop state \<open>(started, in_string, depth)\<close>.
\<close>

type_synonym scan_state = "bool \<times> bool \<times> int"

definition scan_step :: "char \<Rightarrow> scan_state \<Rightarrow> scan_state" where
  "scan_step c st =
     (case st of (started, in_string, depth) \<Rightarrow>
        (let in_string = (if c = dquote \<or> c = squote then \<not> in_string else in_string)
         in if \<not> in_string
            then (if c = CHR ''('' then (True, in_string, depth + 1)
                  else if c = CHR '')'' then (started, in_string, depth - 1)
                  else (started, in_string, depth))
            else (started, in_string, depth)))"

text \<open>
  The inner loop.  The result is \<open>Some i\<close> when the loop leaves by \<open>break\<close> at index \<open>i\<close>
  (where the source sets \<open>end = i\<close>), \<open>None\<close> when the text is exhausted, together with
  the loop state at that moment.
\<close>

fun scan :: "string \<Rightarrow> nat \<Rightarrow> scan_state \<Rightarrow> nat option \<times> scan_state" where
  "scan [] i st = (None, st)"
| "scan (c # cs) i st =
     (case scan_step c st of (started, in_string, depth) \<Rightarrow>
        if \<not> in_string \<and> started \<and> depth = 0
        then (Some i, (started, in_string, depth))
        else scan cs (Suc i) (started, in_string, depth))"

definition callee :: string where
  "callee = ''candidate(''"

lemma find_in_bounds:
  "find_in sub t k = Some p \<Longrightarrow> k \<le> p \<and> p + length sub \<le> k + length t"
proof (induction t arbitrary: k)
  case Nil
  then show ?case by (simp split: if_splits)
next
  case (Cons c cs)
  show ?case
  proof (cases "startswith (c # cs) sub")
    case True
    then have "length (take (length sub) (c # cs)) = length sub"
      by (simp only: startswith_def)
    then have "length sub \<le> length (c # cs)"
      by simp
    with True Cons.prems show ?thesis by simp
  next
    case False
    with Cons.prems have "find_in sub cs (Suc k) = Some p" by simp
    from Cons.IH [OF this] show ?thesis by simp
  qed
qed

lemma py_find_bounds:
  "py_find s sub start = Some p \<Longrightarrow> start \<le> p \<and> p + length sub \<le> length s"
  unfolding py_find_def
  by (auto split: if_splits dest!: find_in_bounds)

text \<open>
  The outer \<open>while idx != -1\<close> loop.  \<open>end\<close> is the Python variable \<open>end\<close>, unbound
  (\<open>None\<close>) before the first \<open>break\<close> and otherwise left over from the last one.
\<close>

function extract_loop ::
  "string \<Rightarrow> nat \<Rightarrow> nat option \<Rightarrow> (int \<times> int) list \<Rightarrow> string list
     \<Rightarrow> pyerr + ((int \<times> int) list \<times> string list)" where
  "extract_loop s idx end spans calls =
     (case scan (drop idx s) 0 (False, False, 0) of
        (brk, (started, in_string, depth)) \<Rightarrow>
          (let end = (case brk of Some i \<Rightarrow> Some i | None \<Rightarrow> end)
           in if \<not> (depth = 0 \<and> started \<and> \<not> in_string) then Inl AssertionError
              else (case end of
                      None \<Rightarrow> Inl UnboundLocalError
                    | Some e \<Rightarrow>
                        (let spans = spans @ [(int idx, int idx + int e + 1)];
                             calls = calls @ [substring s idx (idx + e + 1)]
                         in case py_find s callee (idx + 1) of
                              None \<Rightarrow> Inr (spans, calls)
                            | Some idx' \<Rightarrow> extract_loop s idx' (Some e) spans calls))))"
  by pat_completeness auto
termination
  apply (relation "measure (\<lambda>(s, idx, end, spans, calls). length s - idx)")
   apply simp
  apply (auto dest!: py_find_bounds simp: callee_def)
  done

declare extract_loop.simps [simp del]

definition extract_calls :: "string \<Rightarrow> pyerr + ((int \<times> int) list \<times> string list)" where
  "extract_calls s =
     (if \<not> py_contains callee s then Inl AssertionError
      else (case py_find s callee 0 of
              None \<Rightarrow> Inr ([], [])
            | Some idx \<Rightarrow> extract_loop s idx None [] []))"

text \<open>
  \<open>sub_calls\<close>: the loop over \<open>zip(call_span_indices, called_values, strict=True)\<close>;
  \<open>strict=True\<close> raises \<open>ValueError\<close> when one list runs out before the other.
\<close>

fun sub_calls_loop ::
  "string \<Rightarrow> int \<Rightarrow> (int \<times> int) list \<Rightarrow> string list \<Rightarrow> pyerr + string" where
  "sub_calls_loop program delta [] [] = Inr program"
| "sub_calls_loop program delta ((start, end) # spans) (v # values) =
     (if v = [] then Inl IndexError
      else if \<not> (hd v = CHR ''['' \<and> last v = CHR '']'') then Inl AssertionError
      else (let v = butlast (tl v);
                program = slice_to program (start + delta) @ v
                            @ slice_from program (end + delta);
                delta = delta + (int (length v) - (end - start))
            in sub_calls_loop program delta spans values))"
| "sub_calls_loop program delta _ _ = Inl ValueError"

definition sub_calls :: "string \<Rightarrow> (int \<times> int) list \<Rightarrow> string list \<Rightarrow> pyerr + string" where
  "sub_calls program call_span_indices called_values =
     sub_calls_loop program 0 call_span_indices called_values"

section \<open>The Evaluator: \<open>eval_program_with_calls\<close>\<close>

text \<open>
  The Python run time and the two syntax-tree passes that work on program text are not
  part of the text-level code modelled here; they are parameters.
  \<^item> \<open>exec\<close>: \<open>exec(program, ...)\<close> under \<open>redirect_stdout\<close>: the fault the program
    raises, or the text it wrote to standard output;
  \<^item> \<open>rewrite\<close>: \<open>rewrite_for_one_based_indexing\<close> on program text;
  \<^item> \<open>strip_hints\<close>: \<open>remove_type_hints\<close> on program text.
\<close>

record runtime =
  exec :: "string \<Rightarrow> pyerr + string"
  rewrite :: "string \<Rightarrow> pyerr + string"
  strip_hints :: "string \<Rightarrow> pyerr + string"

text \<open>
  The tail of \<open>eval_program_with_calls\<close> on the captured text:
  \<open>assert output[-1] == "\n"; return output[:-1].split("\n")\<close>.
  \<open>output[-1]\<close> on the empty text raises \<open>IndexError\<close> before the assertion is tested.
\<close>

definition output_lines :: "string \<Rightarrow> pyerr + string list" where
  "output_lines output =
     (if output = [] then Inl IndexError
      else if last output \<noteq> newline then Inl AssertionError
      else Inr (py_split (butlast output) [newline]))"

definition eval_program_with_calls ::
  "runtime \<Rightarrow> string \<Rightarrow> string option \<Rightarrow> bool \<Rightarrow> pyerr + string list option" where
  "eval_program_with_calls rt program perturbation return_output =
     (case (if perturbation = Some ''one_based_indexing'' then rewrite rt program
            else if perturbation = None then Inr program
            else Inl AssertionError) of
        Inl e \<Rightarrow> Inl e
      | Inr program \<Rightarrow>
          (case exec rt program of
             Inl e \<Rightarrow> Inl e
           | Inr output \<Rightarrow>
               if return_output
               then (case output_lines output of
                       Inl e \<Rightarrow> Inl e
                     | Inr ls \<Rightarrow> Inr (Some ls))
               else Inr None))"

section \<open>The ProgramAssembler: \<open>assemble_program_with_calls\<close>\<close>

record benchmark =
  prompt :: string
  canonical_solution :: string
  test :: string
  entry_point :: string

text \<open>\<open>sep.join(xs)\<close>\<close>

fun py_join :: "string \<Rightarrow> string list \<Rightarrow> string" where
  "py_join sep [] = []"
| "py_join sep [x] = x"
| "py_join sep (x # y # ys) = x @ sep @ py_join sep (y # ys)"

text \<open>\<open>check_asserts_pass\<close>: the output of the executed program is not captured.\<close>

definition check_asserts_pass :: "runtime \<Rightarrow> benchmark \<Rightarrow> string list \<Rightarrow> pyerr + unit" where
  "check_asserts_pass rt obj called_values =
     (let program = prompt obj @ canonical_solution obj @ test obj
      in case extract_calls program of
           Inl e \<Rightarrow> Inl e
         | Inr (call_span_indices, _) \<Rightarrow>
             (case sub_calls program call_span_indices called_values of
                Inl e \<Rightarrow> Inl e
              | Inr subbed_program \<Rightarrow>
                  (case exec rt subbed_program of
                     Inl e \<Rightarrow> Inl e
                   | Inr _ \<Rightarrow> Inr ())))"

text \<open>The deduplication loop: a call is appended unless it is already in the new list.\<close>

fun dedup_loop :: "string list \<Rightarrow> string list \<Rightarrow> string list" where
  "dedup_loop new_formatted_calls [] = new_formatted_calls"
| "dedup_loop new_formatted_calls (call # calls) =
     dedup_loop (if call \<in> set new_formatted_calls then new_formatted_calls
                 else new_formatted_calls @ [call]) calls"

text \<open>
  The loop \<open>for i, call in enumerate(formatted_calls)\<close> of the perturbation filter, on
  the loop state \<open>(filtered_call_indices, filtered_formatted_calls, filtered)\<close>.
  \<open>len(output)\<close> of the \<open>None\<close> that the Evaluator returns without output is a
  \<open>TypeError\<close>.
\<close>

fun filter_loop ::
  "runtime \<Rightarrow> string option \<Rightarrow> string \<Rightarrow> (nat \<times> string) list
     \<Rightarrow> nat list \<times> string list \<times> bool \<Rightarrow> pyerr + (nat list \<times> string list \<times> bool)" where
  "filter_loop rt perturbation_filter context [] acc = Inr acc"
| "filter_loop rt perturbation_filter context ((i, call) # rest)
       (filtered_call_indices, filtered_formatted_calls, filtered) =
     (let program = context @ [newline, newline] @ call
      in case eval_program_with_calls rt program perturbation_filter True of
           Inl e \<Rightarrow>
             if e = ZeroDivisionError
             then filter_loop rt perturbation_filter context rest
                    (filtered_call_indices, filtered_formatted_calls, True)
             else Inl e
         | Inr None \<Rightarrow> Inl TypeError
         | Inr (Some output) \<Rightarrow>
             if length output \<noteq> 1 then Inl AssertionError
             else filter_loop rt perturbation_filter context rest
                    (filtered_call_indices @ [i], filtered_formatted_calls @ [call], filtered))"

definition assemble_program_with_calls ::
  "runtime \<Rightarrow> benchmark \<Rightarrow> string option \<Rightarrow> string option \<Rightarrow> pyerr + (string \<times> nat list)" where
  "assemble_program_with_calls rt obj perturbation_filter fn_name =
     (case strip_hints rt (remove_docstrings (prompt obj) @ canonical_solution obj) of
        Inl e \<Rightarrow> Inl e
      | Inr context \<Rightarrow>
     (let (context, entry_point) =
            (case fn_name of
               None \<Rightarrow> (context, entry_point obj)
             | Some fn \<Rightarrow> (py_replace context (entry_point obj @ ''('') (fn @ ''(''), fn))
      in case py_split (test obj) (''def check(candidate):'' @ [newline]) of
           [_, test_body] \<Rightarrow>
     (case extract_calls test_body of
        Inl e \<Rightarrow> Inl e
      | Inr (_, calls) \<Rightarrow>
     (if \<not> list_all (\<lambda>c. startswith c callee) calls then Inl AssertionError
      else
     (let formatted_calls =
            map (\<lambda>c. ''print(['' @ entry_point @ drop (length ''candidate'') c @ ''])'') calls;
          (formatted_calls, filtered) =
            (if \<not> distinct formatted_calls then (dedup_loop [] formatted_calls, True)
             else (formatted_calls, False))
      in if \<not> distinct formatted_calls then Inl AssertionError
         else
     (case (case perturbation_filter of
              None \<Rightarrow> Inr ([0..<length formatted_calls], formatted_calls, filtered)
            | Some _ \<Rightarrow>
                filter_loop rt perturbation_filter context (enumerate 0 formatted_calls)
                  ([], [], filtered)) of
        Inl e \<Rightarrow> Inl e
      | Inr (filtered_call_indices, formatted_calls, filtered) \<Rightarrow>
     (let program = context @ [newline, newline] @ py_join [newline] formatted_calls
      in if \<not> filtered
         then (case eval_program_with_calls rt program None True of
                 Inl e \<Rightarrow> Inl e
               | Inr None \<Rightarrow> Inl TypeError
               | Inr (Some output) \<Rightarrow>
                   (case check_asserts_pass rt obj output of
                      Inl e \<Rightarrow> Inl e
                    | Inr _ \<Rightarrow> Inr (program, filtered_call_indices)))
         else if 0 < length formatted_calls
         then (case eval_program_with_calls rt program None True of
                 Inl e \<Rightarrow> Inl e
               | Inr _ \<Rightarrow> Inr (program, filtered_call_indices))
         else Inr (program, filtered_call_indices))))))
         | _ \<Rightarrow> Inl ValueError))"

text \<open>A recorded span and its call text, as \<open>extract_calls\<close> produces them for the text \<open>s\<close>.\<close>

definition span_ok :: "string \<Rightarrow> int \<times> int \<Rightarrow> string \<Rightarrow> bool" where
  "span_ok s sp c = (\<exists>a b. sp = (int a, int b) \<and> a \<le> b \<and> b \<le> length s \<and> c = substring s a b)"

text \<open>
  The two outcomes of evaluating one formatted call on its own under the perturbation
  that the filter loop tells apart: the call is dropped when the evaluation raises
  \<open>ZeroDivisionError\<close> (the fault that the index shift raises for index 0), and it
  survives when the evaluation returns exactly one line.
\<close>

definition dropped :: "runtime \<Rightarrow> string option \<Rightarrow> string \<Rightarrow> string \<Rightarrow> bool" where
  "dropped rt pf context call =
     (eval_program_with_calls rt (context @ [newline, newline] @ call) pf True
        = Inl ZeroDivisionError)"

definition survives :: "runtime \<Rightarrow> string option \<Rightarrow> string \<Rightarrow> string \<Rightarrow> bool" where
  "survives rt pf context call =
     (\<exists>l. eval_program_with_calls rt (context @ [newline, newline] @ call) pf True
            = Inr (Some [l]))"

text \<open>
  The docstring-stripping step in the words of the specification: the text is split
  at the delimiter and every even-indexed segment is removed, the rest kept
  concatenated in order.  (The code's own pass is \<open>strip_pass\<close>.)
\<close>

definition removes_even_indexed :: "string \<Rightarrow> string \<Rightarrow> string" where
  "removes_even_indexed delim s =
     concat (map snd (filter (\<lambda>(i, p). i mod 2 \<noteq> 0) (enumerate 0 (py_split s delim))))"

section \<open>A fragment of Python: syntax trees, values and evaluation\<close>

text \<open>
  The IndexRewriter works on Python syntax trees (module \<open>ast\<close>) and returns trees that
  it builds by formatting program text and parsing it.  The model works on the trees:
  each formatted text is represented by the tree it parses to (every spliced
  subexpression is parenthesised in the source, so the shape of the tree does not
  depend on what is spliced in), and \<open>ast.unparse\<close> followed by \<open>ast.parse\<close> is taken to
  give back the tree it started from.

  The run-time behaviour of the rewritten expressions is stated against an evaluator
  for a fragment of Python expressions: integers, booleans, strings, \<open>None\<close>, tuples,
  lists and dicts (mutable, on a heap), slice objects, \<open>isinstance\<close>, \<open>print\<close>,
  single-parameter lambdas, and the methods \<open>pop\<close> and \<open>append\<close>.  The state holds the
  variable bindings, the heap and the record of what was printed.  Evaluation takes a
  budget \<open>n\<close> of nested lambda applications.
\<close>

subsection \<open>Syntax trees\<close>

text \<open>
  The node classes of module \<open>ast\<close> that the model covers, under their own names where
  these are free: \<open>PyList\<close> and \<open>PyTuple\<close> are \<open>ast.List\<close> and \<open>ast.Tuple\<close>, \<open>UNot\<close> is
  \<open>ast.Not\<close>, \<open>PowOp\<close> is \<open>ast.Pow\<close>, \<open>IfStmt\<close> is \<open>ast.If\<close>.  A comparison has one
  operator, a lambda one positional parameter, a call positional arguments only.
\<close>

datatype const = CInt int | CStr string | CBool bool | CNone

datatype unaryop = Invert | UNot | UAdd | USub

datatype operator =
  Add | Sub | Mult | MatMult | Div | Mod | PowOp | LShift | RShift | BitOr | BitXor | BitAnd
  | FloorDiv

datatype cmpop = Eq | NotEq | Lt | LtE | Gt | GtE

datatype expr =
    Constant const
  | Name string
  | UnaryOp unaryop expr
  | BinOp expr operator expr
  | Compare expr cmpop expr
  | IfExp expr expr expr
  | Subscript expr expr
  | Slice "expr option" "expr option" "expr option"
  | PyList "expr list"
  | PyTuple "expr list"
  | Attribute expr string
  | Call expr "expr list"
  | Lambda string expr

datatype stmt =
    Expr expr
  | Assign "expr list" expr
  | AugAssign expr operator expr
  | IfStmt expr "stmt list" "stmt list"

subsection \<open>Values, objects and the program state\<close>

text \<open>
  Lists and dicts are references into the heap, so that a mutation through one
  expression is seen through every other; the other values are immutable.
  \<open>VBuiltin\<close> is a builtin function or type, \<open>VMethod v name\<close> the bound method \<open>v.name\<close>.
\<close>

datatype val =
    VInt int
  | VBool bool
  | VStr string
  | VNone
  | VTuple "val list"
  | VList nat
  | VDict nat
  | VSlice val val val
  | VBuiltin string
  | VLambda string expr
  | VMethod val string

datatype obj = OList "val list" | ODict "(val \<times> val) list"

record state =
  env :: "(string \<times> val) list"
  heap :: "obj list"
  printed :: "val list list"

text \<open>
  An evaluation returns the exception raised or the value, and the state it leaves
  (what was printed or mutated before an exception stays so).  \<open>bind\<close> runs the next
  step on a value and passes an exception on.
\<close>

type_synonym 'a result = "(pyerr + 'a) \<times> state"

definition bind :: "'a result \<Rightarrow> ('a \<Rightarrow> state \<Rightarrow> 'b result) \<Rightarrow> 'b result" where
  "bind r f = (case r of (Inl e, s) \<Rightarrow> (Inl e, s) | (Inr v, s) \<Rightarrow> f v s)"

lemma bind_cong [fundef_cong]:
  "r = r' \<Longrightarrow> (\<And>v s. r' = (Inr v, s) \<Longrightarrow> f v s = f' v s) \<Longrightarrow> bind r f = bind r' f'"
  by (auto simp: bind_def split: prod.splits sum.splits)

definition const_val :: "const \<Rightarrow> val" where
  "const_val c = (case c of CInt i \<Rightarrow> VInt i | CStr s \<Rightarrow> VStr s | CBool b \<Rightarrow> VBool b
                  | CNone \<Rightarrow> VNone)"

text \<open>
  A name is looked up in the bindings of the program and then among the builtins of
  the fragment; any other name is outside the model.
\<close>

definition builtin_names :: "string list" where
  "builtin_names = [''isinstance'', ''print'', ''list'', ''tuple'', ''str'', ''int'', ''bool'',
                    ''dict'']"

definition lookup_name :: "state \<Rightarrow> string \<Rightarrow> pyerr + val" where
  "lookup_name s x =
     (case map_of (env s) x of
        Some v \<Rightarrow> Inr v
      | None \<Rightarrow> if x \<in> set builtin_names then Inr (VBuiltin x) else Inl NotModelled)"

definition heap_get :: "state \<Rightarrow> nat \<Rightarrow> obj option" where
  "heap_get s a = (if a < length (heap s) then Some (heap s ! a) else None)"

definition alloc :: "obj \<Rightarrow> state \<Rightarrow> nat \<times> state" where
  "alloc ob s = (length (heap s), s\<lparr>heap := heap s @ [ob]\<rparr>)"

text \<open>The integer that a value is where Python expects one: \<open>bool\<close> is a subclass of
  \<open>int\<close>.\<close>

definition as_int :: "val \<Rightarrow> int option" where
  "as_int v = (case v of VInt i \<Rightarrow> Some i | VBool b \<Rightarrow> Some (if b then 1 else 0) | _ \<Rightarrow> None)"

text \<open>The truth value of a value in a condition.\<close>

definition truthy :: "state \<Rightarrow> val \<Rightarrow> bool" where
  "truthy s v =
     (case v of
        VInt i \<Rightarrow> i \<noteq> 0
      | VBool b \<Rightarrow> b
      | VStr cs \<Rightarrow> cs \<noteq> []
      | VNone \<Rightarrow> False
      | VTuple vs \<Rightarrow> vs \<noteq> []
      | VList a \<Rightarrow> (case heap_get s a of Some (OList xs) \<Rightarrow> xs \<noteq> [] | _ \<Rightarrow> True)
      | VDict a \<Rightarrow> (case heap_get s a of Some (ODict kvs) \<Rightarrow> kvs \<noteq> [] | _ \<Rightarrow> True)
      | _ \<Rightarrow> True)"

text \<open>
  Operators on integers.  True division by a non-zero number gives a float, which is
  outside the model; division and remainder by zero raise \<open>ZeroDivisionError\<close>.
\<close>

definition unaryop_val :: "state \<Rightarrow> unaryop \<Rightarrow> val \<Rightarrow> pyerr + val" where
  "unaryop_val s op v =
     (case op of
        UNot \<Rightarrow> Inr (VBool (\<not> truthy s v))
      | _ \<Rightarrow>
        (case as_int v of
           None \<Rightarrow> Inl NotModelled
         | Some i \<Rightarrow>
             Inr (VInt (case op of USub \<Rightarrow> - i | UAdd \<Rightarrow> i | Invert \<Rightarrow> - i - 1 | UNot \<Rightarrow> i))))"

definition binop_val :: "operator \<Rightarrow> val \<Rightarrow> val \<Rightarrow> pyerr + val" where
  "binop_val op a b =
     (case (as_int a, as_int b) of
        (Some x, Some y) \<Rightarrow>
          (case op of
             Add \<Rightarrow> Inr (VInt (x + y))
           | Sub \<Rightarrow> Inr (VInt (x - y))
           | Mult \<Rightarrow> Inr (VInt (x * y))
           | FloorDiv \<Rightarrow> if y = 0 then Inl ZeroDivisionError else Inr (VInt (x div y))
           | Mod \<Rightarrow> if y = 0 then Inl ZeroDivisionError else Inr (VInt (x mod y))
           | Div \<Rightarrow> if y = 0 then Inl ZeroDivisionError else Inl NotModelled
           | MatMult \<Rightarrow> Inl TypeError
           | _ \<Rightarrow> Inl NotModelled)
      | _ \<Rightarrow> Inl NotModelled)"

definition compare_val :: "cmpop \<Rightarrow> val \<Rightarrow> val \<Rightarrow> pyerr + val" where
  "compare_val op a b =
     (case (as_int a, as_int b) of
        (Some x, Some y) \<Rightarrow>
          Inr (VBool (case op of Eq \<Rightarrow> x = y | NotEq \<Rightarrow> x \<noteq> y | Lt \<Rightarrow> x < y | LtE \<Rightarrow> x \<le> y
                      | Gt \<Rightarrow> x > y | GtE \<Rightarrow> x \<ge> y))
      | _ \<Rightarrow> Inl NotModelled)"


subsection \<open>Subscripts on sequences and mappings\<close>

text \<open>
  The position that an integer index denotes in a sequence of length \<open>len\<close>, where a
  negative index counts from the end; \<open>None\<close> when it is out of range.
\<close>

definition norm_index :: "nat \<Rightarrow> int \<Rightarrow> nat option" where
  "norm_index len i =
     (if 0 \<le> i \<and> i < int len then Some (nat i)
      else if i < 0 \<and> 0 \<le> i + int len then Some (nat (i + int len))
      else None)"

text \<open>\<open>xs[iv]\<close> on a sequence, for an index that is not a slice object.\<close>

definition index_seq :: "'a list \<Rightarrow> val \<Rightarrow> pyerr + 'a" where
  "index_seq xs iv =
     (case as_int iv of
        None \<Rightarrow> Inl TypeError
      | Some i \<Rightarrow>
          (case norm_index (length xs) i of
             None \<Rightarrow> Inl IndexError
           | Some j \<Rightarrow> Inr (xs ! j)))"

text \<open>A bound of a slice object: \<open>None\<close> or an integer.\<close>

definition slice_bound :: "val \<Rightarrow> pyerr + int option" where
  "slice_bound v =
     (case v of VNone \<Rightarrow> Inr None
      | _ \<Rightarrow> (case as_int v of None \<Rightarrow> Inl TypeError | Some i \<Rightarrow> Inr (Some i)))"

text \<open>
  The adjustment of one slice bound to a sequence of length \<open>n\<close> for a stride \<open>step\<close>,
  as Python's \<open>slice.indices\<close> does it: \<open>dflt_pos\<close> / \<open>dflt_neg\<close> are the values of an
  absent bound for a positive / negative stride.
\<close>

definition adjust_bound :: "int \<Rightarrow> int \<Rightarrow> int \<Rightarrow> int \<Rightarrow> int option \<Rightarrow> int" where
  "adjust_bound n step dflt_pos dflt_neg b =
     (case b of
        None \<Rightarrow> if 0 < step then dflt_pos else dflt_neg
      | Some i \<Rightarrow>
          if i < 0 then max (i + n) (if 0 < step then 0 else - 1)
          else min i (if 0 < step then n else n - 1))"

definition slice_seq :: "'a list \<Rightarrow> val \<Rightarrow> val \<Rightarrow> val \<Rightarrow> pyerr + 'a list" where
  "slice_seq xs lo up st =
     (case slice_bound st of Inl e \<Rightarrow> Inl e | Inr stp \<Rightarrow>
        (let step = (case stp of None \<Rightarrow> 1 | Some k \<Rightarrow> k); n = int (length xs)
         in if step = 0 then Inl ValueError
            else
              (case slice_bound lo of Inl e \<Rightarrow> Inl e | Inr l \<Rightarrow>
               case slice_bound up of Inl e \<Rightarrow> Inl e | Inr u \<Rightarrow>
                 (let start = adjust_bound n step 0 (n - 1) l;
                      stop = adjust_bound n step n (- 1) u;
                      count = (if 0 < step
                               then (if start < stop then (stop - start - 1) div step + 1 else 0)
                               else (if stop < start then (start - stop - 1) div (- step) + 1
                                     else 0))
                  in Inr (map (\<lambda>k. xs ! nat (start + int k * step)) [0..<nat count])))))"

text \<open>
  Keys of a mapping: \<open>True == 1\<close> and \<open>False == 0\<close> also as keys; lists, dicts and slice
  objects are unhashable.
\<close>

fun key_norm :: "val \<Rightarrow> val" where
  "key_norm (VBool b) = VInt (if b then 1 else 0)"
| "key_norm (VTuple vs) = VTuple (map key_norm vs)"
| "key_norm v = v"

fun hashable :: "val \<Rightarrow> bool" where
  "hashable (VList a) = False"
| "hashable (VDict a) = False"
| "hashable (VSlice a b c) = False"
| "hashable (VTuple vs) = list_all hashable vs"
| "hashable v = True"

definition dict_get :: "(val \<times> val) list \<Rightarrow> val \<Rightarrow> pyerr + val" where
  "dict_get kvs k =
     (if \<not> hashable k then Inl TypeError
      else (case find (\<lambda>(k', v). key_norm k' = key_norm k) kvs of
              None \<Rightarrow> Inl KeyError
            | Some (k', v) \<Rightarrow> Inr v))"

text \<open>\<open>cv[iv]\<close>; slicing a list allocates the new list.\<close>

definition getitem :: "val \<Rightarrow> val \<Rightarrow> state \<Rightarrow> val result" where
  "getitem cv iv s =
     (case cv of
        VList a \<Rightarrow>
          (case heap_get s a of
             Some (OList xs) \<Rightarrow>
               (case iv of
                  VSlice lo up st \<Rightarrow>
                    (case slice_seq xs lo up st of
                       Inl e \<Rightarrow> (Inl e, s)
                     | Inr ys \<Rightarrow> (case alloc (OList ys) s of (a', s') \<Rightarrow> (Inr (VList a'), s')))
                | _ \<Rightarrow> (index_seq xs iv, s))
           | _ \<Rightarrow> (Inl NotModelled, s))
      | VTuple xs \<Rightarrow>
          (case iv of
             VSlice lo up st \<Rightarrow> (map_sum id VTuple (slice_seq xs lo up st), s)
           | _ \<Rightarrow> (index_seq xs iv, s))
      | VStr cs \<Rightarrow>
          (case iv of
             VSlice lo up st \<Rightarrow> (map_sum id VStr (slice_seq cs lo up st), s)
           | _ \<Rightarrow> (map_sum id (\<lambda>c. VStr [c]) (index_seq cs iv), s))
      | VDict a \<Rightarrow>
          (case heap_get s a of
             Some (ODict kvs) \<Rightarrow> (dict_get kvs iv, s)
           | _ \<Rightarrow> (Inl NotModelled, s))
      | VBuiltin f \<Rightarrow> (Inl NotModelled, s)
      | _ \<Rightarrow> (Inl TypeError, s))"

subsection \<open>Attributes and calls\<close>

text \<open>The type names that \<open>isinstance\<close> can be asked about, per value.\<close>

definition types_of :: "val \<Rightarrow> string list" where
  "types_of v =
     (case v of
        VInt i \<Rightarrow> [''int'']
      | VBool b \<Rightarrow> [''bool'', ''int'']
      | VStr cs \<Rightarrow> [''str'']
      | VTuple vs \<Rightarrow> [''tuple'']
      | VList a \<Rightarrow> [''list'']
      | VDict a \<Rightarrow> [''dict'']
      | _ \<Rightarrow> [])"

definition type_names :: "string list" where
  "type_names = [''list'', ''tuple'', ''str'', ''int'', ''bool'', ''dict'']"

definition as_type :: "val \<Rightarrow> string option" where
  "as_type t = (case t of VBuiltin x \<Rightarrow> if x \<in> set type_names then Some x else None
                | _ \<Rightarrow> None)"

text \<open>\<open>isinstance(v, t)\<close> for a type or a flat tuple of types \<open>t\<close>.\<close>

definition isinstance_val :: "val \<Rightarrow> val \<Rightarrow> pyerr + val" where
  "isinstance_val v t =
     (case t of
        VTuple ts \<Rightarrow>
          if list_all (\<lambda>t. as_type t \<noteq> None) ts
          then Inr (VBool (\<exists>t \<in> set ts. \<exists>x \<in> set (types_of v). as_type t = Some x))
          else if list_all (\<lambda>t. case t of VTuple _ \<Rightarrow> False | VBuiltin _ \<Rightarrow> False | _ \<Rightarrow> True) ts
          then Inl TypeError else Inl NotModelled
      | _ \<Rightarrow>
          (case as_type t of
             Some x \<Rightarrow> Inr (VBool (x \<in> set (types_of v)))
           | None \<Rightarrow> (case t of VBuiltin _ \<Rightarrow> Inl NotModelled | _ \<Rightarrow> Inl TypeError)))"

text \<open>
  \<open>v.name\<close> for the method names of the modelled fragment, \<open>pop\<close> and \<open>append\<close>: lists have
  both, dicts have \<open>pop\<close>, the other modelled values have neither.
\<close>

definition getattr :: "val \<Rightarrow> string \<Rightarrow> pyerr + val" where
  "getattr v name =
     (if name \<noteq> ''pop'' \<and> name \<noteq> ''append'' then Inl NotModelled
      else (case v of
              VList a \<Rightarrow> Inr (VMethod v name)
            | VDict a \<Rightarrow> if name = ''pop'' then Inr (VMethod v name) else Inl AttributeError
            | VBuiltin f \<Rightarrow> Inl NotModelled
            | _ \<Rightarrow> Inl AttributeError))"

definition set_obj :: "nat \<Rightarrow> obj \<Rightarrow> state \<Rightarrow> state" where
  "set_obj a ob s = s\<lparr>heap := (heap s)[a := ob]\<rparr>"

text \<open>The largest \<open>Py_ssize_t\<close> (of a 64-bit build): the argument of \<open>list.pop\<close> is
  converted to that type, and an integer outside its range raises \<open>OverflowError\<close>.\<close>

definition ssize_max :: int where
  "ssize_max = 2 ^ 63 - 1"

text \<open>\<open>xs.pop()\<close>, \<open>xs.pop(i)\<close> and \<open>xs.append(v)\<close> on the list at address \<open>a\<close>.\<close>

definition list_method :: "nat \<Rightarrow> val list \<Rightarrow> string \<Rightarrow> val list \<Rightarrow> state \<Rightarrow> val result" where
  "list_method a xs name args s =
     (if name = ''append''
      then (case args of
              [v] \<Rightarrow> (Inr VNone, set_obj a (OList (xs @ [v])) s)
            | _ \<Rightarrow> (Inl TypeError, s))
      else if name = ''pop''
      then (case args of
              [] \<Rightarrow> if xs = [] then (Inl IndexError, s)
                    else (Inr (last xs), set_obj a (OList (butlast xs)) s)
            | [iv] \<Rightarrow>
                (case as_int iv of
                   None \<Rightarrow> (Inl TypeError, s)
                 | Some i \<Rightarrow>
                     if i < - ssize_max - 1 \<or> ssize_max < i then (Inl OverflowError, s)
                     else
                       (case norm_index (length xs) i of
                          None \<Rightarrow> (Inl IndexError, s)
                        | Some j \<Rightarrow>
                            (Inr (xs ! j), set_obj a (OList (take j xs @ drop (Suc j) xs)) s)))
            | _ \<Rightarrow> (Inl TypeError, s))
      else (Inl NotModelled, s))"

text \<open>\<open>d.pop(k)\<close> and \<open>d.pop(k, default)\<close> on the dict at address \<open>a\<close>.\<close>

definition dict_pop :: "nat \<Rightarrow> (val \<times> val) list \<Rightarrow> val list \<Rightarrow> state \<Rightarrow> val result" where
  "dict_pop a kvs args s =
     (case args of
        [k] \<Rightarrow>
          (case dict_get kvs k of
             Inl e \<Rightarrow> (Inl e, s)
           | Inr v \<Rightarrow>
               (Inr v, set_obj a (ODict (filter (\<lambda>(k', v). key_norm k' \<noteq> key_norm k) kvs)) s))
      | [k, d] \<Rightarrow>
          (case dict_get kvs k of
             Inl e \<Rightarrow> if e = KeyError then (Inr d, s) else (Inl e, s)
           | Inr v \<Rightarrow>
               (Inr v, set_obj a (ODict (filter (\<lambda>(k', v). key_norm k' \<noteq> key_norm k) kvs)) s))
      | _ \<Rightarrow> (Inl TypeError, s))"

text \<open>Calling a value that is not a lambda.\<close>

definition call_value :: "val \<Rightarrow> val list \<Rightarrow> state \<Rightarrow> val result" where
  "call_value fv args s =
     (case fv of
        VBuiltin f \<Rightarrow>
          if f = ''isinstance''
          then (case args of [v, t] \<Rightarrow> (isinstance_val v t, s) | _ \<Rightarrow> (Inl TypeError, s))
          else if f = ''print'' then (Inr VNone, s\<lparr>printed := printed s @ [args]\<rparr>)
          else (Inl NotModelled, s)
      | VMethod recv name \<Rightarrow>
          (case recv of
             VList a \<Rightarrow>
               (case heap_get s a of
                  Some (OList xs) \<Rightarrow> list_method a xs name args s
                | _ \<Rightarrow> (Inl NotModelled, s))
           | VDict a \<Rightarrow>
               (case heap_get s a of
                  Some (ODict kvs) \<Rightarrow>
                    if name = ''pop'' then dict_pop a kvs args s else (Inl NotModelled, s)
                | _ \<Rightarrow> (Inl NotModelled, s))
           | _ \<Rightarrow> (Inl NotModelled, s))
      | VLambda p body \<Rightarrow> (Inl NotModelled, s)
      | _ \<Rightarrow> (Inl TypeError, s))"

subsection \<open>Evaluation of expressions\<close>

text \<open>
  Operands are evaluated left to right, a call evaluates the function before the
  arguments, a conditional expression the test before the branch taken.  A lambda is
  applied with its parameter bound in front of the bindings of the program, which are
  restored afterwards; each application takes one unit of the budget \<open>n\<close>.
\<close>

fun eval :: "nat \<Rightarrow> expr \<Rightarrow> state \<Rightarrow> val result"
  and eval_list :: "nat \<Rightarrow> expr list \<Rightarrow> state \<Rightarrow> (val list) result"
  and eval_opt :: "nat \<Rightarrow> expr option \<Rightarrow> state \<Rightarrow> val result" where
  "eval n (Constant c) s = (Inr (const_val c), s)"
| "eval n (Name x) s = (lookup_name s x, s)"
| "eval n (UnaryOp op e) s = bind (eval n e s) (\<lambda>v s1. (unaryop_val s1 op v, s1))"
| "eval n (BinOp l op r) s =
     bind (eval n l s) (\<lambda>a s1. bind (eval n r s1) (\<lambda>b s2. (binop_val op a b, s2)))"
| "eval n (Compare l op r) s =
     bind (eval n l s) (\<lambda>a s1. bind (eval n r s1) (\<lambda>b s2. (compare_val op a b, s2)))"
| "eval n (IfExp tst body orelse) s =
     bind (eval n tst s) (\<lambda>t s1. if truthy s1 t then eval n body s1 else eval n orelse s1)"
| "eval n (Subscript v sl) s =
     bind (eval n v s) (\<lambda>cv s1. bind (eval n sl s1) (\<lambda>iv s2. getitem cv iv s2))"
| "eval n (Slice lower upper step) s =
     bind (eval_opt n lower s) (\<lambda>lo s1.
     bind (eval_opt n upper s1) (\<lambda>up s2.
     bind (eval_opt n step s2) (\<lambda>st s3. (Inr (VSlice lo up st), s3))))"
| "eval n (PyList es) s =
     bind (eval_list n es s) (\<lambda>vs s1. case alloc (OList vs) s1 of (a, s2) \<Rightarrow> (Inr (VList a), s2))"
| "eval n (PyTuple es) s = bind (eval_list n es s) (\<lambda>vs s1. (Inr (VTuple vs), s1))"
| "eval n (Attribute e name) s = bind (eval n e s) (\<lambda>v s1. (getattr v name, s1))"
| "eval n (Lambda p body) s = (Inr (VLambda p body), s)"
| "eval n (Call f args) s =
     bind (eval n f s) (\<lambda>fv s1.
     bind (eval_list n args s1) (\<lambda>vs s2.
       case fv of
         VLambda p body \<Rightarrow>
           (case vs of
              [v] \<Rightarrow>
                (case n of
                   0 \<Rightarrow> (Inl OutOfFuel, s2)
                 | Suc m \<Rightarrow>
                     (case eval m body (s2\<lparr>env := (p, v) # env s2\<rparr>) of
                        (r, s3) \<Rightarrow> (r, s3\<lparr>env := env s2\<rparr>)))
            | _ \<Rightarrow> (Inl TypeError, s2))
       | _ \<Rightarrow> call_value fv vs s2))"
| "eval_list n [] s = (Inr [], s)"
| "eval_list n (e # es) s =
     bind (eval n e s) (\<lambda>v s1. bind (eval_list n es s1) (\<lambda>vs s2. (Inr (v # vs), s2)))"
| "eval_opt n None s = (Inr VNone, s)"
| "eval_opt n (Some e) s = eval n e s"


section \<open>The IndexRewriter: \<open>OneBasedIndexingTransformer\<close>\<close>

text \<open>\<open>any(isinstance(node, t) for t in self.types_we_know_how_to_handle)\<close>\<close>

definition types_we_know_how_to_handle :: "expr \<Rightarrow> bool" where
  "types_we_know_how_to_handle node =
     (case node of
        Constant c \<Rightarrow> True
      | UnaryOp op e \<Rightarrow> True
      | BinOp l op r \<Rightarrow> True
      | Name x \<Rightarrow> True
      | Subscript v sl \<Rightarrow> True
      | IfExp t b e \<Rightarrow> True
      | Slice lo up st \<Rightarrow> True
      | _ \<Rightarrow> False)"

text \<open>
  \<open>shift_idx\<close>: the tree that the text
  \<open>(E)-(1 if (E) > 0 else (0 if (E) < 0 else (1/0)))\<close> parses to.
\<close>

definition shift_idx :: "expr \<Rightarrow> expr" where
  "shift_idx e =
     BinOp e Sub
       (IfExp (Compare e Gt (Constant (CInt 0))) (Constant (CInt 1))
          (IfExp (Compare e Lt (Constant (CInt 0))) (Constant (CInt 0))
             (BinOp (Constant (CInt 1)) Div (Constant (CInt 0)))))"

text \<open>\<open>expand_idx\<close>: the tree that the text \<open>lower:upper:step\<close>, or the shifted index,
  parses to inside the brackets of the new subscript.\<close>

definition expand_idx :: "expr \<Rightarrow> expr" where
  "expand_idx slice_node =
     (case slice_node of
        Slice lower upper step \<Rightarrow> Slice (map_option shift_idx lower) (map_option shift_idx upper) step
      | _ \<Rightarrow> shift_idx slice_node)"

text \<open>\<open>isinstance((e), (list, tuple, str))\<close>\<close>

definition isinstance_seq :: "expr \<Rightarrow> expr" where
  "isinstance_seq e =
     Call (Name ''isinstance'') [e, PyTuple [Name ''list'', Name ''tuple'', Name ''str'']]"

definition antwnc :: string where
  "antwnc = ''__antwnc''"

definition no_indexing_attrs :: "string list" where
  "no_indexing_attrs =
     [''append'', ''extend'', ''join'', ''clear'', ''split'', ''lower'', ''upper'', ''islower'',
      ''isupper'', ''isdigit'', ''isalpha'', ''swapcase'', ''sort'', ''remove'', ''count'',
      ''replace'', ''reverse'', ''encode'', ''strip'']"

text \<open>
  The body of \<open>visit_Attribute\<close> after \<open>generic_visit\<close>: \<open>v\<close> is the visited
  \<open>node.value\<close>, and \<open>parent_args\<close> is \<open>Some (len(node.parent.args))\<close> when the parent of
  the node is a call and \<open>None\<close> otherwise.
\<close>

definition rewrite_attribute :: "nat option \<Rightarrow> expr \<Rightarrow> string \<Rightarrow> pyerr + expr" where
  "rewrite_attribute parent_args v attr =
     (if attr \<in> set no_indexing_attrs then Inr (Attribute v attr)
      else if attr = ''startswith'' \<or> attr = ''endswith''
      then (case parent_args of
              None \<Rightarrow> Inl AssertionError
            | Some k \<Rightarrow> if k = 1 then Inr (Attribute v attr) else Inl AssertionError)
      else if attr = ''pop''
      then (case parent_args of
              None \<Rightarrow> Inl AssertionError
            | Some k \<Rightarrow>
                if k = 0 then Inr (Attribute v attr)
                else if k = 1
                then Inr (IfExp (isinstance_seq v)
                            (Lambda antwnc (Call (Attribute v attr) [shift_idx (Name antwnc)]))
                            (Attribute v attr))
                else Inl AssertionError)
      else if attr = ''index''
      then (case parent_args of
              None \<Rightarrow> Inl AssertionError
            | Some k \<Rightarrow>
                if k = 1
                then Inr (IfExp (isinstance_seq v)
                            (Lambda antwnc
                               (BinOp (Call (Attribute v attr) [Name antwnc]) Add
                                  (Constant (CInt 1))))
                            (Attribute v attr))
                else Inl AssertionError)
      else Inr (Attribute
                  (IfExp (isinstance_seq v) (Subscript (PyList []) (Constant (CInt 1))) v)
                  attr))"

text \<open>The expression that \<open>visit_Subscript\<close> returns for the visited container \<open>v\<close> and
  the visited index or slice \<open>sl\<close>.\<close>

definition rewrite_subscript :: "expr \<Rightarrow> expr \<Rightarrow> expr" where
  "rewrite_subscript v sl =
     IfExp (isinstance_seq v) (Subscript v (expand_idx sl)) (Subscript v sl)"

definition bind_err :: "pyerr + 'a \<Rightarrow> ('a \<Rightarrow> pyerr + 'b) \<Rightarrow> pyerr + 'b" where
  "bind_err r f = (case r of Inl e \<Rightarrow> Inl e | Inr v \<Rightarrow> f v)"

lemma bind_err_cong [fundef_cong]:
  "r = r' \<Longrightarrow> (\<And>v. r' = Inr v \<Longrightarrow> f v = f' v) \<Longrightarrow> bind_err r f = bind_err r' f'"
  by (auto simp: bind_err_def split: sum.splits)

text \<open>
  The traversal on expressions.  \<open>par\<close> carries what \<open>visit_Attribute\<close> reads from the
  parent link of the node it visits: \<open>Some k\<close> for a child of a call with \<open>k\<close> positional
  arguments, \<open>None\<close> for a child of any other node.  Fields are visited in the order of
  \<open>generic_visit\<close>.
\<close>

fun visit :: "nat option \<Rightarrow> expr \<Rightarrow> pyerr + expr"
  and visit_list :: "nat option \<Rightarrow> expr list \<Rightarrow> pyerr + expr list"
  and visit_opt :: "expr option \<Rightarrow> pyerr + expr option" where
  "visit par (Constant c) = Inr (Constant c)"
| "visit par (Name x) = Inr (Name x)"
| "visit par (UnaryOp op e) = bind_err (visit None e) (\<lambda>e'. Inr (UnaryOp op e'))"
| "visit par (BinOp l op r) =
     bind_err (visit None l) (\<lambda>l'. bind_err (visit None r) (\<lambda>r'. Inr (BinOp l' op r')))"
| "visit par (Compare l op r) =
     bind_err (visit None l) (\<lambda>l'. bind_err (visit None r) (\<lambda>r'. Inr (Compare l' op r')))"
| "visit par (IfExp tst body orelse) =
     bind_err (visit None tst) (\<lambda>t'.
     bind_err (visit None body) (\<lambda>b'.
     bind_err (visit None orelse) (\<lambda>o'. Inr (IfExp t' b' o'))))"
| "visit par (Subscript v sl) =
     (if \<not> types_we_know_how_to_handle sl then Inl AssertionError
      else bind_err (visit None v) (\<lambda>v'.
           bind_err (visit None sl) (\<lambda>sl'. Inr (rewrite_subscript v' sl'))))"
| "visit par (Slice lower upper step) =
     bind_err (visit_opt lower) (\<lambda>lo'.
     bind_err (visit_opt upper) (\<lambda>up'.
     bind_err (visit_opt step) (\<lambda>st'. Inr (Slice lo' up' st'))))"
| "visit par (PyList es) = bind_err (visit_list None es) (\<lambda>es'. Inr (PyList es'))"
| "visit par (PyTuple es) = bind_err (visit_list None es) (\<lambda>es'. Inr (PyTuple es'))"
| "visit par (Attribute v attr) =
     bind_err (visit None v) (\<lambda>v'. rewrite_attribute par v' attr)"
| "visit par (Call f args) =
     bind_err (visit (Some (length args)) f) (\<lambda>f'.
     bind_err (visit_list (Some (length args)) args) (\<lambda>args'. Inr (Call f' args')))"
| "visit par (Lambda p body) = bind_err (visit None body) (\<lambda>b'. Inr (Lambda p b'))"
| "visit_list par [] = Inr []"
| "visit_list par (e # es) =
     bind_err (visit par e) (\<lambda>e'. bind_err (visit_list par es) (\<lambda>es'. Inr (e' # es')))"
| "visit_opt None = Inr None"
| "visit_opt (Some e) = bind_err (visit None e) (\<lambda>e'. Inr (Some e'))"

text \<open>
  The traversal on statements: \<open>visit_Assign\<close>, \<open>visit_AugAssign\<close> and \<open>generic_visit\<close>
  on the other statements.  Every operator of an augmented assignment has its case in
  the \<open>match\<close> of \<open>visit_AugAssign\<close>, so the \<open>NotImplementedError\<close> of its last case is
  never raised.  Its self-check parses the text \<open>(lhs)[(slice)] op= (value)\<close>: with a
  slice between the parentheses that text is not Python, and \<open>ast.parse\<close> raises
  \<open>SyntaxError\<close>; with an index it parses to the statement itself and the check passes.
\<close>

definition is_Slice :: "expr \<Rightarrow> bool" where
  "is_Slice e = (case e of Slice lo up st \<Rightarrow> True | _ \<Rightarrow> False)"

definition is_Subscript :: "expr \<Rightarrow> bool" where
  "is_Subscript e = (case e of Subscript v sl \<Rightarrow> True | _ \<Rightarrow> False)"

fun visit_stmt :: "stmt \<Rightarrow> pyerr + stmt"
  and visit_stmts :: "stmt list \<Rightarrow> pyerr + stmt list" where
  "visit_stmt (Expr e) = bind_err (visit None e) (\<lambda>e'. Inr (Expr e'))"
| "visit_stmt (Assign targets val) =
     (if \<not> list_ex is_Subscript targets
      then bind_err (visit_list None targets) (\<lambda>ts'.
           bind_err (visit None val) (\<lambda>v'. Inr (Assign ts' v')))
      else if 1 < length targets then Inl NotImplementedError
      else (case hd targets of
              Subscript tv tsl \<Rightarrow>
                if \<not> types_we_know_how_to_handle tsl then Inl AssertionError
                else bind_err (visit None tv) (\<lambda>lhs.
                     bind_err (visit None tsl) (\<lambda>sl'.
                     bind_err (visit None val) (\<lambda>v'.
                       Inr (IfStmt (isinstance_seq lhs)
                              [Assign [Subscript lhs (expand_idx sl')] v']
                              [Assign [Subscript lhs sl'] v']))))
            | _ \<Rightarrow> Inl NotModelled))"
| "visit_stmt (AugAssign target op val) =
     (case target of
        Subscript tv tsl \<Rightarrow>
          if \<not> types_we_know_how_to_handle tsl then Inl AssertionError
          else bind_err (visit None tv) (\<lambda>lhs.
               bind_err (visit None tsl) (\<lambda>sl'.
               bind_err (visit None val) (\<lambda>v'.
                 if is_Slice sl' then Inl SyntaxError
                 else Inr (IfStmt (isinstance_seq lhs)
                             [AugAssign (Subscript lhs (expand_idx sl')) op v']
                             [AugAssign (Subscript lhs sl') op v']))))
      | _ \<Rightarrow>
          bind_err (visit None target) (\<lambda>t'.
          bind_err (visit None val) (\<lambda>v'. Inr (AugAssign t' op v'))))"
| "visit_stmt (IfStmt tst body orelse) =
     bind_err (visit None tst) (\<lambda>t'.
     bind_err (visit_stmts body) (\<lambda>b'.
     bind_err (visit_stmts orelse) (\<lambda>o'. Inr (IfStmt t' b' o'))))"
| "visit_stmts [] = Inr []"
| "visit_stmts (st # sts) =
     bind_err (visit_stmt st) (\<lambda>st'. bind_err (visit_stmts sts) (\<lambda>sts'. Inr (st' # sts')))"

section \<open>Notions used to state the run-time properties\<close>

text \<open>The values for which \<open>isinstance(v, (list, tuple, str))\<close> holds.\<close>

definition is_sequence :: "val \<Rightarrow> bool" where
  "is_sequence v =
     (case v of VList a \<Rightarrow> True | VTuple vs \<Rightarrow> True | VStr cs \<Rightarrow> True | _ \<Rightarrow> False)"

text \<open>
  The names that the type test of the rewritten code refers to denote the builtins:
  the program has not bound \<open>isinstance\<close>, \<open>list\<close>, \<open>tuple\<close> or \<open>str\<close> itself.
\<close>

definition builtins_visible :: "state \<Rightarrow> bool" where
  "builtins_visible s =
     (map_of (env s) ''isinstance'' = None \<and> map_of (env s) ''list'' = None
      \<and> map_of (env s) ''tuple'' = None \<and> map_of (env s) ''str'' = None)"

text \<open>The expression that \<open>visit_Attribute\<close> returns for \<open>v.pop\<close> under a call with one
  argument.\<close>

definition pop_dispatch :: "expr \<Rightarrow> expr" where
  "pop_dispatch v =
     IfExp (isinstance_seq v)
       (Lambda antwnc (Call (Attribute v ''pop'') [shift_idx (Name antwnc)]))
       (Attribute v ''pop'')"

text \<open>The subexpressions of an expression, itself included.\<close>

fun subexprs :: "expr \<Rightarrow> expr set"
  and subexprs_list :: "expr list \<Rightarrow> expr set"
  and subexprs_opt :: "expr option \<Rightarrow> expr set" where
  "subexprs (Constant c) = {Constant c}"
| "subexprs (Name x) = {Name x}"
| "subexprs (UnaryOp op e) = insert (UnaryOp op e) (subexprs e)"
| "subexprs (BinOp l op r) = insert (BinOp l op r) (subexprs l \<union> subexprs r)"
| "subexprs (Compare l op r) = insert (Compare l op r) (subexprs l \<union> subexprs r)"
| "subexprs (IfExp t b e) = insert (IfExp t b e) (subexprs t \<union> subexprs b \<union> subexprs e)"
| "subexprs (Subscript v sl) = insert (Subscript v sl) (subexprs v \<union> subexprs sl)"
| "subexprs (Slice lo up st) =
     insert (Slice lo up st) (subexprs_opt lo \<union> subexprs_opt up \<union> subexprs_opt st)"
| "subexprs (PyList es) = insert (PyList es) (subexprs_list es)"
| "subexprs (PyTuple es) = insert (PyTuple es) (subexprs_list es)"
| "subexprs (Attribute e a) = insert (Attribute e a) (subexprs e)"
| "subexprs (Call f args) = insert (Call f args) (subexprs f \<union> subexprs_list args)"
| "subexprs (Lambda p b) = insert (Lambda p b) (subexprs b)"
| "subexprs_list [] = {}"
| "subexprs_list (e # es) = subexprs e \<union> subexprs_list es"
| "subexprs_opt None = {}"
| "subexprs_opt (Some e) = subexprs e"

text \<open>
  States for the worked examples: \<open>xs\<close> is the list \<open>[7, 8, 9]\<close> and \<open>d\<close> the dict
  \<open>{0: "a", 1: "b"}\<close>; \<open>demo_printed ps\<close> is that state after the print events \<open>ps\<close>.
\<close>

definition demo_printed :: "val list list \<Rightarrow> state" where
  "demo_printed ps =
     \<lparr>env = [(''xs'', VList 0), (''d'', VDict (Suc 0))],
      heap = [OList [VInt 7, VInt 8, VInt 9], ODict [(VInt 0, VStr ''a''), (VInt 1, VStr ''b'')]],
      printed = ps\<rparr>"

definition demo_state :: state where
  "demo_state = demo_printed []"

text \<open>An expression that prints \<open>k\<close> and then evaluates to what \<open>e\<close> evaluates to:
  \<open>(e if print(k) else e)\<close>.\<close>

definition printing :: "int \<Rightarrow> expr \<Rightarrow> expr" where
  "printing k e = IfExp (Call (Name ''print'') [Constant (CInt k)]) e e"

text \<open>The demo state after \<open>xs\<close> has become the list \<open>ys\<close>.\<close>

definition demo_popped :: "val list \<Rightarrow> val list list \<Rightarrow> state" where
  "demo_popped ys ps =
     \<lparr>env = [(''xs'', VList 0), (''d'', VDict (Suc 0))],
      heap = [OList ys, ODict [(VInt 0, VStr ''a''), (VInt 1, VStr ''b'')]],
      printed = ps\<rparr>"

text \<open>A run time whose every program prints the text \<open>txt\<close>.\<close>

definition demo_runtime :: "string \<Rightarrow> runtime" where
  "demo_runtime txt = \<lparr>exec = (\<lambda>_. Inr txt), rewrite = Inr, strip_hints = Inr\<rparr>"

text \<open>The state of a program that has bound and printed nothing.\<close>

definition empty_state :: state where
  "empty_state = \<lparr>env = [], heap = [], printed = []\<rparr>"

section \<open>Notions used to state the properties of the ProgramAssembler\<close>

text \<open>The context and the entry point after the optional renaming (\<open>fn_name\<close>).\<close>

definition renamed :: "benchmark \<Rightarrow> string option \<Rightarrow> string \<Rightarrow> string \<times> string" where
  "renamed obj fn_name context =
     (case fn_name of
        None \<Rightarrow> (context, entry_point obj)
      | Some fn \<Rightarrow> (py_replace context (entry_point obj @ ''('') (fn @ ''(''), fn))"

text \<open>\<open>f"print([{entry_point}{c[len('candidate'):]}])"\<close>\<close>

definition format_call :: "string \<Rightarrow> string \<Rightarrow> string" where
  "format_call entry c = ''print(['' @ entry @ drop (length ''candidate'') c @ ''])''"

text \<open>The formatted calls after the deduplication step.\<close>

definition deduplicated :: "string list \<Rightarrow> string list" where
  "deduplicated formatted_calls =
     (if distinct formatted_calls then formatted_calls else dedup_loop [] formatted_calls)"

text \<open>The calls of the list that are not dropped, each with its index into the list.\<close>

definition surviving :: "runtime \<Rightarrow> string option \<Rightarrow> string \<Rightarrow> string list \<Rightarrow> (nat \<times> string) list" where
  "surviving rt pf context calls =
     filter (\<lambda>(i, c). \<not> dropped rt pf context c) (enumerate 0 calls)"

text \<open>
  The last step of the assembler on the assembled program: the comparison run when
  nothing was filtered, a plain run when something was and a call is left.
\<close>

definition final_run :: "runtime \<Rightarrow> benchmark \<Rightarrow> string \<Rightarrow> bool \<Rightarrow> nat \<Rightarrow> pyerr + unit" where
  "final_run rt obj program filtered n_calls =
     (if \<not> filtered
      then (case eval_program_with_calls rt program None True of
              Inl e \<Rightarrow> Inl e
            | Inr None \<Rightarrow> Inl TypeError
            | Inr (Some output) \<Rightarrow> check_asserts_pass rt obj output)
      else if 0 < n_calls
      then (case eval_program_with_calls rt program None True of
              Inl e \<Rightarrow> Inl e
            | Inr _ \<Rightarrow> Inr ())
      else Inr ())"

text \<open>
  A benchmark record whose solution divides by a value that \<open>pop\<close> returns:
  \<^verbatim>\<open>
  def f(xs):
      return 6 // (xs.pop(2) - 8)

  def check(candidate):
      assert candidate([7, 8, 9]) == 6
      assert candidate([7, 9, 10]) == 3
  \<close>
  \<open>arith_context\<close> is what \<open>remove_type_hints\<close> returns for prompt and solution.
\<close>

definition arith_benchmark :: benchmark where
  "arith_benchmark =
     \<lparr>prompt = ''def f(xs):'' @ [newline],
      canonical_solution = ''    return 6 // (xs.pop(2) - 8)'' @ [newline],
      test = ''def check(candidate):'' @ [newline]
               @ ''    assert candidate([7, 8, 9]) == 6'' @ [newline]
               @ ''    assert candidate([7, 9, 10]) == 3'' @ [newline],
      entry_point = ''f''\<rparr>"

definition arith_context :: string where
  "arith_context = ''def f(xs):'' @ [newline] @ ''    return 6 // (xs.pop(2) - 8)''"

text \<open>
  The Python run time on the programs that the assembler builds from this record.
  \<open>rewrite\<close> marks a program as rewritten for 1-based indexing, and \<open>exec\<close> gives what
  running the program gives.  Rewritten, \<open>xs.pop(2)\<close> removes the second element: on
  \<open>[7, 8, 9]\<close> it returns 8 and the division \<open>6 // 0\<close> of the solution raises
  \<open>ZeroDivisionError\<close>; on \<open>[7, 9, 10]\<close> it returns 9 and \<open>[6]\<close> is printed.  Not rewritten,
  \<open>f([7, 9, 10])\<close> is \<open>6 // (10 - 8)\<close> and \<open>[3]\<close> is printed.  \<open>fault\<close> is the fault of the
  first of these programs, a parameter so that another fault can be put in its place.
\<close>

definition perturbed_mark :: string where
  "perturbed_mark = ''# one-based'' @ [newline]"

definition arith_runtime :: "pyerr \<Rightarrow> runtime" where
  "arith_runtime fault =
     \<lparr>exec = (\<lambda>p.
         if p = perturbed_mark @ arith_context @ [newline, newline] @ ''print([f([7, 8, 9])])''
         then Inl fault
         else if p = perturbed_mark @ arith_context @ [newline, newline]
                       @ ''print([f([7, 9, 10])])''
         then Inr (''[6]'' @ [newline])
         else if p = arith_context @ [newline, newline] @ ''print([f([7, 9, 10])])''
         then Inr (''[3]'' @ [newline])
         else Inl (OtherError ''not a program of the example'')),
      rewrite = (\<lambda>p. Inr (perturbed_mark @ p)),
      strip_hints = (\<lambda>p. Inr (butlast p))\<rparr>"

text \<open>The body of \<open>f\<close> as a syntax tree, and what the rewriter makes of it.\<close>

definition arith_body :: expr where
  "arith_body =
     BinOp (Constant (CInt 6)) FloorDiv
       (BinOp (Call (Attribute (Name ''xs'') ''pop'') [Constant (CInt 2)]) Sub
          (Constant (CInt 8)))"

definition arith_body_rewritten :: expr where
  "arith_body_rewritten =
     BinOp (Constant (CInt 6)) FloorDiv
       (BinOp (Call (pop_dispatch (Name ''xs'')) [Constant (CInt 2)]) Sub (Constant (CInt 8)))"

section \<open>Properties of the Evaluator\<close>

lemma py_split_aux_snoc:
  "py_split_aux [n] cur (xs @ [n]) = py_split_aux [n] cur xs @ [[]]"
  by (induction xs arbitrary: cur) (simp_all add: startswith_def)

lemma py_split_snoc:
  assumes "output \<noteq> []" and "last output = n"
  shows "py_split output [n] = py_split (butlast output) [n] @ [[]]"
proof -
  from assms have "output = butlast output @ [n]"
    by (metis append_butlast_last_id)
  then show ?thesis
    unfolding py_split_def by (metis py_split_aux_snoc)
qed

text \<open>
  Claim C7.  When the Evaluator runs a program with output requested and the
  execution itself does not fault: if the captured text does not end with a line
  terminator (this includes the empty text), the Evaluator raises a fault and returns
  nothing; otherwise it returns the captured text split at the line terminators, in
  order, without the final segment, and that final segment is the empty one.
\<close>

theorem eval_program_output_lines:
  assumes "(perturbation = None \<and> p = program)
           \<or> (perturbation = Some ''one_based_indexing'' \<and> rewrite rt program = Inr p)"
    and "exec rt p = Inr output"
  shows "(\<not> (output \<noteq> [] \<and> last output = newline) \<longrightarrow>
            eval_program_with_calls rt program perturbation True
              = Inl (if output = [] then IndexError else AssertionError))
         \<and> (output \<noteq> [] \<and> last output = newline \<longrightarrow>
            eval_program_with_calls rt program perturbation True
              = Inr (Some (butlast (py_split output [newline])))
            \<and> last (py_split output [newline]) = [])"
  using assms
  by (auto simp: eval_program_with_calls_def output_lines_def py_split_snoc)

theorem eval_program_output_lines_witness:
  "eval_program_with_calls (demo_runtime (''[1]'' @ [newline] @ ''[2]'' @ [newline]))
       ''p'' (Some ''one_based_indexing'') True = Inr (Some [''[1]'', ''[2]''])
   \<and> eval_program_with_calls (demo_runtime (''[1]'' @ [newline] @ ''[2]''))
       ''p'' None True = Inl AssertionError
   \<and> eval_program_with_calls (demo_runtime []) ''p'' None True = Inl IndexError"
  using eval_program_output_lines
          [of "Some ''one_based_indexing''" "''p''" "''p''"
              "demo_runtime (''[1]'' @ [newline] @ ''[2]'' @ [newline])"
              "''[1]'' @ [newline] @ ''[2]'' @ [newline]"]
        eval_program_output_lines
          [of None "''p''" "''p''" "demo_runtime (''[1]'' @ [newline] @ ''[2]'')"
              "''[1]'' @ [newline] @ ''[2]''"]
        eval_program_output_lines [of None "''p''" "''p''" "demo_runtime []" "[]"]
  by (simp add: demo_runtime_def py_split_def startswith_def newline_def)

section \<open>Properties of the call scanner and the substitution\<close>

lemma scan_break_bounds:
  "scan cs i st = (Some e, st') \<Longrightarrow> i \<le> e \<and> e < i + length cs"
proof (induction cs arbitrary: i st)
  case Nil
  then show ?case by simp
next
  case (Cons c cs)
  obtain a b d where step: "scan_step c st = (a, b, d)"
    by (metis prod_cases3)
  show ?case
  proof (cases "\<not> b \<and> a \<and> d = 0")
    case True
    with Cons.prems step show ?thesis by simp
  next
    case False
    with Cons.prems step have "scan cs (Suc i) (a, b, d) = (Some e, st')" by auto
    from Cons.IH [OF this] show ?thesis by simp
  qed
qed

lemma scan_step_started:
  "scan_step c (True, q, d) = (a, b, e) \<Longrightarrow> 1 \<le> d \<Longrightarrow> a \<and> (1 \<le> e \<or> (\<not> b \<and> e = 0))"
  unfolding scan_step_def Let_def
  apply (cases "c = dquote \<or> c = squote"; cases "c = CHR ''(''"; cases "c = CHR '')''"; cases q)
                 apply simp_all
   apply linarith+
  done

lemma scan_exhausted_depth:
  "scan cs i (True, q, d) = (None, (a', q', d')) \<Longrightarrow> 1 \<le> d \<Longrightarrow> 1 \<le> d'"
proof (induction cs arbitrary: i q d)
  case Nil
  then show ?case by simp
next
  case (Cons c cs)
  obtain a b e where step: "scan_step c (True, q, d) = (a, b, e)"
    by (metis prod_cases3)
  from scan_step_started [OF step Cons.prems(2)]
  have a: "a" and e: "1 \<le> e \<or> (\<not> b \<and> e = 0)"
    by simp_all
  show ?case
  proof (cases "\<not> b \<and> e = 0")
    case True
    with Cons.prems step a show ?thesis by simp
  next
    case False
    with Cons.prems step a have *: "scan cs (Suc i) (True, b, e) = (None, (a', q', d'))" by auto
    from False e have "1 \<le> e" by blast
    from Cons.IH [OF * this] show ?thesis .
  qed
qed

lemma scan_callee:
  "scan (callee @ rest) 0 (False, False, 0) = scan rest 10 (True, False, 1)"
  by (simp add: callee_def scan_step_def dquote_def squote_def eval_nat_numeral)

lemma find_in_startswith:
  "find_in sub t k = Some p \<Longrightarrow> startswith (drop (p - k) t) sub"
proof (induction t arbitrary: k)
  case Nil
  then show ?case by (simp add: startswith_def split: if_splits)
next
  case (Cons c cs)
  show ?case
  proof (cases "startswith (c # cs) sub")
    case True
    with Cons.prems show ?thesis by simp
  next
    case False
    with Cons.prems have f: "find_in sub cs (Suc k) = Some p" by simp
    from find_in_bounds [OF f] have "Suc k \<le> p" by simp
    then have "p - k = Suc (p - Suc k)" by simp
    with Cons.IH [OF f] show ?thesis by simp
  qed
qed

lemma py_find_startswith:
  assumes "py_find s sub start = Some p"
  shows "startswith (drop p s) sub"
proof -
  from assms have f: "find_in sub (drop start s) start = Some p"
    by (simp add: py_find_def split: if_splits)
  from find_in_bounds [OF f] have "start \<le> p" by simp
  with find_in_startswith [OF f] show ?thesis by simp
qed

lemma startswith_append:
  "startswith t sub \<Longrightarrow> \<exists>rest. t = sub @ rest"
  unfolding startswith_def by (metis append_take_drop_id)

lemma extract_loop_spans:
  "extract_loop s idx end spans calls = Inr (spans', calls') \<Longrightarrow>
   startswith (drop idx s) callee \<Longrightarrow>
   list_all2 (span_ok s) spans calls \<Longrightarrow>
   list_all2 (span_ok s) spans' calls'"
proof (induction s idx "end" spans calls rule: extract_loop.induct)
  case (1 s idx "end" spans calls)
  from startswith_append [OF "1.prems"(2)] obtain rest where rest: "drop idx s = callee @ rest"
    by blast
  obtain brk a q d where sc: "scan rest 10 (True, False, 1) = (brk, (a, q, d))"
    by (metis prod_cases3)
  then have sc0: "scan (drop idx s) 0 (False, False, 0) = (brk, (a, q, d))"
    by (simp add: rest scan_callee)
  show ?case
  proof (cases brk)
    case None
    with sc scan_exhausted_depth [of rest 10 False 1 a q d] have "1 \<le> d" by simp
    with "1.prems"(1) sc0 None show ?thesis
      by (simp add: extract_loop.simps [of s idx])
  next
    case (Some e)
    from scan_break_bounds [of "drop idx s" 0 "(False, False, 0)" e "(a, q, d)"] sc0 Some
    have e: "e < length s - idx" by simp
    let ?spans = "spans @ [(int idx, int idx + int e + 1)]"
    let ?calls = "calls @ [substring s idx (idx + e + 1)]"
    have ok: "span_ok s (int idx, int idx + int e + 1) (substring s idx (idx + e + 1))"
      unfolding span_ok_def using e
      by (intro exI [of _ idx] exI [of _ "idx + e + 1"]) simp
    have all: "list_all2 (span_ok s) ?spans ?calls"
      using "1.prems"(3) ok by (simp add: list_all2_appendI)
    show ?thesis
    proof (cases "d = 0 \<and> a \<and> \<not> q")
      case False
      with "1.prems"(1) sc0 show ?thesis
        by (simp add: extract_loop.simps [of s idx])
    next
      case True
      show ?thesis
      proof (cases "py_find s callee (idx + 1)")
        case None
        with "1.prems"(1) sc0 Some True all show ?thesis
          by (simp add: extract_loop.simps [of s idx])
      next
        case (Some idx')
        with "1.prems"(1) sc0 \<open>brk = Some e\<close> True
        have rec: "extract_loop s idx' (Some e) ?spans ?calls = Inr (spans', calls')"
          by (simp add: extract_loop.simps [of s idx])
        have c1: "Some e = (case brk of None \<Rightarrow> end | Some x \<Rightarrow> Some x)"
          using \<open>brk = Some e\<close> by simp
        have c2: "\<not> \<not> (d = 0 \<and> a \<and> \<not> q)"
          using True by simp
        show ?thesis
          by (rule "1.IH" [OF sc0 [symmetric] refl refl c1 c2 refl refl refl Some rec
                py_find_startswith [OF Some] all])
      qed
    qed
  qed
qed

lemma sub_calls_loop_identity:
  "list_all2 (span_ok s) spans calls \<Longrightarrow>
   sub_calls_loop s 0 spans (map (\<lambda>c. ''['' @ c @ '']'') calls) = Inr s"
proof (induction spans calls rule: list_all2_induct)
  case Nil
  then show ?case by simp
next
  case (Cons sp spans c calls)
  from Cons.hyps(1) obtain a b where sp: "sp = (int a, int b)" and ab: "a \<le> b" "b \<le> length s"
    and c: "c = substring s a b"
    unfolding span_ok_def by blast
  have len: "int (length c) = int b - int a"
    using ab c by (simp add: substring_def)
  have "drop b s = drop (b - a) (drop a s)"
    using ab by simp
  then have "take a s @ c @ drop b s = take a s @ (take (b - a) (drop a s) @ drop (b - a) (drop a s))"
    using c by (simp only: substring_def)
  also have "\<dots> = s"
    by (simp only: append_take_drop_id)
  finally have same: "slice_to s (int a + 0) @ c @ slice_from s (int b + 0) = s"
    by (simp add: slice_to_def slice_from_def)
  show ?case
    using Cons.IH same len by (simp add: sp Let_def)
qed

text \<open>
  Claim C8.  Whenever \<open>extract_calls\<close> succeeds on a text, \<open>sub_calls\<close> on that text,
  with the extracted spans and with each extracted call text wrapped in square
  brackets as the values, succeeds and gives back the text unchanged.
\<close>

theorem extract_sub_round_trip:
  assumes "extract_calls s = Inr (spans, calls)"
  shows "sub_calls s spans (map (\<lambda>c. ''['' @ c @ '']'') calls) = Inr s"
proof -
  have "list_all2 (span_ok s) spans calls"
  proof (cases "py_find s callee 0")
    case None
    with assms show ?thesis by (simp add: extract_calls_def py_contains_def)
  next
    case (Some idx)
    with assms have "extract_loop s idx None [] [] = Inr (spans, calls)"
      by (simp add: extract_calls_def py_contains_def)
    from extract_loop_spans [OF this py_find_startswith [OF Some]] show ?thesis by simp
  qed
  then show ?thesis
    unfolding sub_calls_def by (rule sub_calls_loop_identity)
qed

theorem extract_sub_round_trip_witness:
  "extract_calls ''assert candidate(f(1), 2) == 3''
     = Inr ([(7, 25)], [''candidate(f(1), 2)''])
   \<and> sub_calls ''assert candidate(f(1), 2) == 3'' [(7, 25)] [''[candidate(f(1), 2)]'']
     = Inr ''assert candidate(f(1), 2) == 3''"
proof -
  have h: "extract_calls ''assert candidate(f(1), 2) == 3''
             = Inr ([(7, 25)], [''candidate(f(1), 2)''])"
    by code_simp
  from extract_sub_round_trip [OF h] h show ?thesis by simp
qed

section \<open>Properties of the perturbation filter\<close>

lemma filter_loop_all:
  "\<forall>c \<in> set calls. dropped rt pf context c \<or> survives rt pf context c \<Longrightarrow>
   filter_loop rt pf context (enumerate n calls) (idxs, kept, f) =
     Inr (idxs @ map fst (filter (\<lambda>(i, c). \<not> dropped rt pf context c) (enumerate n calls)),
          kept @ map snd (filter (\<lambda>(i, c). \<not> dropped rt pf context c) (enumerate n calls)),
          f \<or> (\<exists>c \<in> set calls. dropped rt pf context c))"
proof (induction calls arbitrary: n idxs kept f)
  case Nil
  then show ?case by simp
next
  case (Cons c calls)
  from Cons.prems have rest: "\<forall>c \<in> set calls. dropped rt pf context c \<or> survives rt pf context c"
    by simp
  show ?case
  proof (cases "dropped rt pf context c")
    case True
    then show ?thesis
      using Cons.IH [OF rest, of "Suc n" idxs kept True]
      by (simp add: dropped_def)
  next
    case False
    with Cons.prems have "survives rt pf context c" by simp
    then obtain l where
      l: "eval_program_with_calls rt (context @ [newline, newline] @ c) pf True = Inr (Some [l])"
      unfolding survives_def by blast
    show ?thesis
      using Cons.IH [OF rest, of "Suc n" "idxs @ [n]" "kept @ [c]" f] False l
      by (simp add: dropped_def)
  qed
qed

lemma filter_loop_propagates:
  "\<forall>c \<in> set pre. dropped rt pf context c \<or> survives rt pf context c \<Longrightarrow>
   eval_program_with_calls rt (context @ [newline, newline] @ c) pf True = Inl e \<Longrightarrow>
   e \<noteq> ZeroDivisionError \<Longrightarrow>
   filter_loop rt pf context (enumerate n (pre @ c # post)) (idxs, kept, f) = Inl e"
proof (induction pre arbitrary: n idxs kept f)
  case Nil
  then show ?case by simp
next
  case (Cons p pre)
  from Cons.prems have rest: "\<forall>c \<in> set pre. dropped rt pf context c \<or> survives rt pf context c"
    by simp
  show ?case
  proof (cases "dropped rt pf context p")
    case True
    then show ?thesis
      using Cons.IH [OF rest Cons.prems(2,3), of "Suc n" idxs kept True]
      by (simp add: dropped_def)
  next
    case False
    with Cons.prems have "survives rt pf context p" by simp
    then obtain l where
      l: "eval_program_with_calls rt (context @ [newline, newline] @ p) pf True = Inr (Some [l])"
      unfolding survives_def by blast
    show ?thesis
      using Cons.IH [OF rest Cons.prems(2,3), of "Suc n" "idxs @ [n]" "kept @ [p]" f] l
      by simp
  qed
qed

lemma enumerate_filter_nth:
  "(i, c) \<in> set (filter P (enumerate 0 calls)) \<Longrightarrow> i < length calls \<and> calls ! i = c"
  by (auto simp: in_set_enumerate_eq)

section \<open>Properties of \<open>remove_docstrings\<close>\<close>

lemma even_enumerate_shift:
  "map snd (filter (\<lambda>(i, p). i mod 2 = 0) (enumerate (Suc (Suc n)) xs))
     = map snd (filter (\<lambda>(i, p). i mod 2 = 0) (enumerate n xs))"
  by (induction xs arbitrary: n) (simp_all add: mod_Suc)

lemma even_indexed_simps:
  "even_indexed [] = []"
  "even_indexed [x] = [x]"
  "even_indexed (x # y # zs) = x # even_indexed zs"
  by (simp_all add: even_indexed_def even_enumerate_shift)

lemma even_indexed_nth:
  "even_indexed xs = map (\<lambda>k. xs ! (2 * k)) [0..<(length xs + 1) div 2]"
proof (induction xs rule: induct_list012)
  case 1
  then show ?case by (simp add: even_indexed_simps)
next
  case (2 x)
  then show ?case by (simp add: even_indexed_simps)
next
  case (3 x y zs)
  have "[0..<(length (x # y # zs) + 1) div 2] = 0 # map Suc [0..<(length zs + 1) div 2]"
    by (simp add: map_Suc_upt upt_conv_Cons)
  then show ?case
    using 3 by (simp add: even_indexed_simps comp_def)
qed

text \<open>
  Claim C9, as the code has it.  Each pass splits the text at the triple-quote
  delimiter and keeps the segments at the even positions 0, 2, 4, ... of the split
  (the text outside the delimiters), concatenated in order; the segments at the odd
  positions are the ones removed.  The step runs this pass for the double-quote
  delimiter and then, on the result, for the single-quote delimiter.
\<close>

theorem strip_pass_keeps_even_indexed:
  "strip_pass delim s
     = concat (map (\<lambda>k. py_split s delim ! (2 * k)) [0..<(length (py_split s delim) + 1) div 2])
   \<and> remove_docstrings s
     = lstrip_newlines
         (py_replace
            (strip_pass triple_squote
               (py_replace
                  (strip_pass triple_dquote
                     (py_replace s (''FIX = '' @ triple_dquote) triple_dquote))
                  (''FIX = '' @ triple_squote) triple_squote))
            ('':'' @ [newline] @ ''    '' @ [newline]) ('':'' @ [newline]))"
proof
  show "strip_pass delim s
     = concat (map (\<lambda>k. py_split s delim ! (2 * k)) [0..<(length (py_split s delim) + 1) div 2])"
    by (simp only: strip_pass_def even_indexed_nth)
next
  show "remove_docstrings s
     = lstrip_newlines
         (py_replace
            (strip_pass triple_squote
               (py_replace
                  (strip_pass triple_dquote
                     (py_replace s (''FIX = '' @ triple_dquote) triple_dquote))
                  (''FIX = '' @ triple_squote) triple_squote))
            ('':'' @ [newline] @ ''    '' @ [newline]) ('':'' @ [newline]))"
    by (simp only: remove_docstrings_def Let_def)
qed

text \<open>
  The claim as worded fails: on the text \<open>x"""d"""y\<close> the code keeps segments 0 and 2
  and removes segment 1, where removing the even-indexed segments would keep only
  \<open>d\<close>.
\<close>

theorem strip_pass_even_removed_counterexample:
  "py_split (''x'' @ triple_dquote @ ''d'' @ triple_dquote @ ''y'') triple_dquote
     = [''x'', ''d'', ''y'']
   \<and> strip_pass triple_dquote (''x'' @ triple_dquote @ ''d'' @ triple_dquote @ ''y'') = ''xy''
   \<and> remove_docstrings (''x'' @ triple_dquote @ ''d'' @ triple_dquote @ ''y'') = ''xy''
   \<and> removes_even_indexed triple_dquote (''x'' @ triple_dquote @ ''d'' @ triple_dquote @ ''y'')
     = ''d''
   \<and> strip_pass triple_dquote (''x'' @ triple_dquote @ ''d'' @ triple_dquote @ ''y'')
     \<noteq> removes_even_indexed triple_dquote
         (''x'' @ triple_dquote @ ''d'' @ triple_dquote @ ''y'')"
  by code_simp

section \<open>Properties of evaluation\<close>

lemma bind_simps [simp]:
  "bind (Inr v, s) f = f v s"
  "bind (Inl e, s) f = (Inl e, s)"
  by (simp_all add: bind_def)

lemma bind_env:
  assumes "env (snd r) = env s"
    and "\<And>v s1. r = (Inr v, s1) \<Longrightarrow> env (snd (f v s1)) = env s1"
  shows "env (snd (bind r f)) = env s"
proof (cases r)
  case (Pair x s1)
  with assms show ?thesis by (cases x) auto
qed

lemma getitem_env: "env (snd (getitem cv iv s)) = env s"
  by (auto simp: getitem_def alloc_def split: val.splits option.splits obj.splits sum.splits)

lemma list_method_env: "env (snd (list_method a xs name args s)) = env s"
  by (auto simp: list_method_def set_obj_def Let_def split: list.splits option.splits)

lemma dict_pop_env: "env (snd (dict_pop a kvs args s)) = env s"
  by (auto simp: dict_pop_def set_obj_def split: list.splits sum.splits)

lemma call_value_env: "env (snd (call_value fv vs s)) = env s"
  by (auto simp: call_value_def list_method_env dict_pop_env
      split: val.splits list.splits option.splits obj.splits)

lemma eval_env:
  "env (snd (eval n e s)) = env s"
  "env (snd (eval_list n es s)) = env s"
  "env (snd (eval_opt n eo s)) = env s"
proof (induction n e s and n es s and n eo s rule: eval_eval_list_eval_opt.induct)
  case (13 n f args s)
  show ?case
    apply (simp only: eval.simps)
    apply (rule bind_env)
     apply (rule "13.IH"(1))
    apply (rule bind_env)
     apply (erule "13.IH"(2))
    subgoal for fv s1 vs s2
      using "13.IH"(3) [of fv s1 vs s2]
      by (auto simp: call_value_env split: val.splits nat.splits list.splits prod.splits)
    done
qed (auto intro!: bind_env simp: getitem_env alloc_def split: prod.splits)

lemma eval_env_eq: "eval n e s = (r, s') \<Longrightarrow> env s' = env s"
  using eval_env(1) [of n e s] by simp

lemma eval_isinstance_seq:
  assumes "builtins_visible s0" and "eval n e s0 = (Inr v, s1)"
  shows "eval n (isinstance_seq e) s0 = (Inr (VBool (is_sequence v)), s1)"
proof -
  from eval_env_eq [OF assms(2)] assms(1) have vis: "builtins_visible s1"
    by (simp add: builtins_visible_def)
  have names: "lookup_name s0 ''isinstance'' = Inr (VBuiltin ''isinstance'')"
    "lookup_name s1 ''list'' = Inr (VBuiltin ''list'')"
    "lookup_name s1 ''tuple'' = Inr (VBuiltin ''tuple'')"
    "lookup_name s1 ''str'' = Inr (VBuiltin ''str'')"
    using assms(1) vis by (simp_all add: builtins_visible_def lookup_name_def builtin_names_def)
  have inst: "isinstance_val v (VTuple [VBuiltin ''list'', VBuiltin ''tuple'', VBuiltin ''str''])
                = Inr (VBool (is_sequence v))"
    by (cases v) (simp_all add: isinstance_val_def as_type_def type_names_def types_of_def
        is_sequence_def)
  show ?thesis
    by (simp add: isinstance_seq_def assms(2) names call_value_def inst)
qed

lemma eval_shift_idx_pos:
  assumes "eval n E s0 = (Inr x, s1)" and "eval n E s1 = (Inr x, s2)"
    and "as_int x = Some v" and "0 < v"
  shows "eval n (shift_idx E) s0 = (Inr (VInt (v - 1)), s2)"
  using assms
  by (simp add: shift_idx_def const_val_def compare_val_def binop_val_def as_int_def truthy_def)

lemma eval_shift_idx_neg:
  assumes "eval n E s0 = (Inr x, s1)" and "eval n E s1 = (Inr x, s2)"
    and "eval n E s2 = (Inr x, s3)" and "as_int x = Some v" and "v < 0"
  shows "eval n (shift_idx E) s0 = (Inr (VInt v), s3)"
  using assms
  by (simp add: shift_idx_def const_val_def compare_val_def binop_val_def as_int_def truthy_def)

lemma eval_shift_idx_zero:
  assumes "eval n E s0 = (Inr x, s1)" and "eval n E s1 = (Inr x, s2)"
    and "eval n E s2 = (Inr x, s3)" and "as_int x = Some 0"
  shows "eval n (shift_idx E) s0 = (Inl ZeroDivisionError, s3)"
  using assms
  by (simp add: shift_idx_def const_val_def compare_val_def binop_val_def as_int_def truthy_def)

section \<open>Properties of the index shift\<close>

text \<open>
  Claim C1.  The shifted expression evaluates the index expression \<open>E\<close> again for each
  comparison it makes.  When these evaluations of \<open>E\<close> all give the integer \<open>v\<close>
  (a Boolean counts as 0 or 1): for \<open>v > 0\<close> the shifted expression evaluates to
  \<open>v - 1\<close>, for \<open>v < 0\<close> it evaluates to \<open>v\<close>, and for \<open>v = 0\<close> its evaluation raises
  \<open>ZeroDivisionError\<close>.
\<close>

theorem shift_idx_by_sign:
  assumes "eval n E s0 = (Inr x, s1)" and "eval n E s1 = (Inr x, s2)" and "as_int x = Some v"
  shows "(0 < v \<longrightarrow> eval n (shift_idx E) s0 = (Inr (VInt (v - 1)), s2))
         \<and> (eval n E s2 = (Inr x, s3) \<longrightarrow>
              (v < 0 \<longrightarrow> eval n (shift_idx E) s0 = (Inr (VInt v), s3))
              \<and> (v = 0 \<longrightarrow> eval n (shift_idx E) s0 = (Inl ZeroDivisionError, s3)))"
  using assms eval_shift_idx_pos [of n E s0 x s1 s2 v] eval_shift_idx_neg [of n E s0 x s1 s2 s3 v]
    eval_shift_idx_zero [of n E s0 x s1 s2 s3]
  by blast

theorem shift_idx_by_sign_witness:
  "eval 0 (shift_idx (Constant (CInt 3))) empty_state = (Inr (VInt 2), empty_state)
   \<and> eval 0 (shift_idx (UnaryOp USub (Constant (CInt 2)))) empty_state
       = (Inr (VInt (- 2)), empty_state)
   \<and> eval 0 (shift_idx (Constant (CInt 0))) empty_state = (Inl ZeroDivisionError, empty_state)"
proof -
  have e3: "eval 0 (Constant (CInt 3)) empty_state = (Inr (VInt 3), empty_state)"
    by (simp add: const_val_def)
  have e2: "eval 0 (UnaryOp USub (Constant (CInt 2))) empty_state
              = (Inr (VInt (- 2)), empty_state)"
    by (simp add: const_val_def unaryop_val_def as_int_def)
  have e0: "eval 0 (Constant (CInt 0)) empty_state = (Inr (VInt 0), empty_state)"
    by (simp add: const_val_def)
  have a: "as_int (VInt k) = Some k" for k
    by (simp add: as_int_def)
  from shift_idx_by_sign [OF e3 e3 a, of empty_state]
       shift_idx_by_sign [OF e2 e2 a, of empty_state]
       shift_idx_by_sign [OF e0 e0 a, of empty_state] e2 e0
  show ?thesis by simp
qed

section \<open>Properties of the rewritten subscript read\<close>

lemma expand_idx_index: "\<not> is_Slice i \<Longrightarrow> expand_idx i = shift_idx i"
  by (cases i) (simp_all add: is_Slice_def expand_idx_def)

lemma eval_rewrite_subscript:
  assumes "builtins_visible s0" and "eval n c s0 = (Inr cv, s1)"
  shows "eval n (rewrite_subscript c k) s0 =
           (if is_sequence cv then eval n (Subscript c (expand_idx k)) s1
            else eval n (Subscript c k) s1)"
  using eval_isinstance_seq [OF assms]
  by (simp add: rewrite_subscript_def truthy_def del: eval.simps(7))

lemma eval_shift_idx_general:
  assumes "eval n E s0 = (Inr (VInt v1), s1)" and "eval n E s1 = (Inr (VInt v2), s2)"
  shows "0 < v2 \<Longrightarrow> eval n (shift_idx E) s0 = (Inr (VInt (v1 - 1)), s2)"
    and "v2 \<le> 0 \<Longrightarrow> eval n E s2 = (Inr (VInt v3), s3) \<Longrightarrow> v3 < 0 \<Longrightarrow>
           eval n (shift_idx E) s0 = (Inr (VInt v1), s3)"
    and "v2 \<le> 0 \<Longrightarrow> eval n E s2 = (Inr (VInt v3), s3) \<Longrightarrow> 0 \<le> v3 \<Longrightarrow>
           eval n (shift_idx E) s0 = (Inl ZeroDivisionError, s3)"
  using assms
  by (simp_all add: shift_idx_def const_val_def compare_val_def binop_val_def as_int_def
      truthy_def)

lemma eval_shift_idx_pure:
  assumes "eval n A s = (Inr (VInt a), s)" and "0 < a"
  shows "eval n (shift_idx A) s = (Inr (VInt (a - 1)), s)"
  using eval_shift_idx_general(1) [OF assms(1) assms(1) assms(2)] .


text \<open>
  Claim C3.  \<open>expand_idx\<close> turns a slice into the slice whose lower and upper bounds are
  each shifted by \<open>shift_idx\<close> where present, an absent bound stays absent, and the step
  is not changed.  On a sequence, with bounds that evaluate to positive \<open>a\<close> and \<open>b\<close>
  (container, bounds and step evaluated without changing the state), the rewritten
  \<open>s[a:b]\<close> evaluates as the original \<open>s[a-1:b-1]\<close> does, and the rewritten \<open>s[a:]\<close> and
  \<open>s[:b]\<close> take the slices with only that bound shifted.
\<close>

theorem slice_bounds_shifted:
  "expand_idx (Slice lower upper step)
     = Slice (map_option shift_idx lower) (map_option shift_idx upper) step
   \<and> (builtins_visible s \<and> eval n c s = (Inr cv, s) \<and> is_sequence cv
        \<and> eval n A s = (Inr (VInt a), s) \<and> 0 < a
        \<and> eval n B s = (Inr (VInt b), s) \<and> 0 < b
        \<and> eval_opt n step s = (Inr stv, s) \<longrightarrow>
      eval n (rewrite_subscript c (Slice (Some A) (Some B) step)) s
        = getitem cv (VSlice (VInt (a - 1)) (VInt (b - 1)) stv) s
      \<and> eval n (rewrite_subscript c (Slice (Some A) (Some B) step)) s
        = eval n (Subscript c (Slice (Some (Constant (CInt (a - 1))))
                                    (Some (Constant (CInt (b - 1)))) step)) s
      \<and> eval n (rewrite_subscript c (Slice (Some A) None step)) s
        = getitem cv (VSlice (VInt (a - 1)) VNone stv) s
      \<and> eval n (rewrite_subscript c (Slice None (Some B) step)) s
        = getitem cv (VSlice VNone (VInt (b - 1)) stv) s)"
proof (intro conjI impI)
  show "expand_idx (Slice lower upper step)
     = Slice (map_option shift_idx lower) (map_option shift_idx upper) step"
    by (simp add: expand_idx_def)
next
  assume h: "builtins_visible s \<and> eval n c s = (Inr cv, s) \<and> is_sequence cv
        \<and> eval n A s = (Inr (VInt a), s) \<and> 0 < a
        \<and> eval n B s = (Inr (VInt b), s) \<and> 0 < b
        \<and> eval_opt n step s = (Inr stv, s)"
  then have c: "eval n c s = (Inr cv, s)" and st: "eval_opt n step s = (Inr stv, s)"
    and sa: "eval n (shift_idx A) s = (Inr (VInt (a - 1)), s)"
    and sb: "eval n (shift_idx B) s = (Inr (VInt (b - 1)), s)"
    by (simp_all add: eval_shift_idx_pure)
  have rw: "eval n (rewrite_subscript c k) s = eval n (Subscript c (expand_idx k)) s" for k
    using eval_rewrite_subscript [of s n c cv s k] h by simp
  show "eval n (rewrite_subscript c (Slice (Some A) (Some B) step)) s
        = getitem cv (VSlice (VInt (a - 1)) (VInt (b - 1)) stv) s"
    by (simp add: rw expand_idx_def c st sa sb)
  show "eval n (rewrite_subscript c (Slice (Some A) (Some B) step)) s
        = eval n (Subscript c (Slice (Some (Constant (CInt (a - 1))))
                                    (Some (Constant (CInt (b - 1)))) step)) s"
    by (simp add: rw expand_idx_def c st sa sb const_val_def)
  show "eval n (rewrite_subscript c (Slice (Some A) None step)) s
        = getitem cv (VSlice (VInt (a - 1)) VNone stv) s"
    by (simp add: rw expand_idx_def c st sa)
  show "eval n (rewrite_subscript c (Slice None (Some B) step)) s
        = getitem cv (VSlice VNone (VInt (b - 1)) stv) s"
    by (simp add: rw expand_idx_def c st sb)
qed

text \<open>
  Claim C10.  Evaluating the rewritten subscript read evaluates the container
  expression twice (once in the type test, once in the branch taken) and, in the
  sequence branch, the index expression two or three times (once for the value that
  is shifted and once for each comparison made); each evaluation starts in the state
  that the one before left.  The value subscripted is that of the second evaluation
  of the container, the value shifted is that of the first evaluation of the index,
  and the comparisons look at the values of the later evaluations.  So the rewritten
  read agrees with the original one when these evaluations leave the state unchanged,
  and need not agree otherwise.
\<close>

theorem subscript_read_reevaluates:
  assumes "builtins_visible s0"
    and "eval n c s0 = (Inr cv, s1)"
    and "eval n c s1 = (Inr cv', s2)"
  shows "(\<not> is_sequence cv \<longrightarrow>
            eval n (rewrite_subscript c i) s0
              = bind (eval n i s2) (\<lambda>iv s3. getitem cv' iv s3))
         \<and> (is_sequence cv \<and> \<not> is_Slice i
              \<and> eval n i s2 = (Inr (VInt v1), s3) \<and> eval n i s3 = (Inr (VInt v2), s4) \<longrightarrow>
            (0 < v2 \<longrightarrow> eval n (rewrite_subscript c i) s0 = getitem cv' (VInt (v1 - 1)) s4)
            \<and> (v2 \<le> 0 \<and> eval n i s4 = (Inr (VInt v3), s5) \<longrightarrow>
                 (v3 < 0 \<longrightarrow> eval n (rewrite_subscript c i) s0 = getitem cv' (VInt v1) s5)
                 \<and> (0 \<le> v3 \<longrightarrow>
                      eval n (rewrite_subscript c i) s0 = (Inl ZeroDivisionError, s5))))"
proof (intro conjI impI)
  assume "\<not> is_sequence cv"
  then show "eval n (rewrite_subscript c i) s0 = bind (eval n i s2) (\<lambda>iv s3. getitem cv' iv s3)"
    using eval_rewrite_subscript [OF assms(1,2), of i] assms(3) by simp
next
  assume h: "is_sequence cv \<and> \<not> is_Slice i
              \<and> eval n i s2 = (Inr (VInt v1), s3) \<and> eval n i s3 = (Inr (VInt v2), s4)"
  then have rw: "eval n (rewrite_subscript c i) s0
                   = bind (eval n (shift_idx i) s2) (\<lambda>iv s3. getitem cv' iv s3)"
    using eval_rewrite_subscript [OF assms(1,2), of i] assms(3)
    by (simp add: expand_idx_index)
  from h have i1: "eval n i s2 = (Inr (VInt v1), s3)" and i2: "eval n i s3 = (Inr (VInt v2), s4)"
    by simp_all
  show "eval n (rewrite_subscript c i) s0 = getitem cv' (VInt (v1 - 1)) s4" if "0 < v2"
    using eval_shift_idx_general(1) [OF i1 i2 that] by (simp add: rw)
  show "eval n (rewrite_subscript c i) s0 = getitem cv' (VInt v1) s5"
    if "v2 \<le> 0 \<and> eval n i s4 = (Inr (VInt v3), s5)" and "v3 < 0"
    using eval_shift_idx_general(2) [OF i1 i2, of v3 s5] that by (simp add: rw)
  show "eval n (rewrite_subscript c i) s0 = (Inl ZeroDivisionError, s5)"
    if "v2 \<le> 0 \<and> eval n i s4 = (Inr (VInt v3), s5)" and "0 \<le> v3"
    using eval_shift_idx_general(3) [OF i1 i2, of v3 s5] that by (simp add: rw)
qed

section \<open>Properties of the rewritten \<open>pop\<close> call\<close>

lemma rewrite_attribute_pop:
  "rewrite_attribute (Some (Suc 0)) v ''pop'' = Inr (pop_dispatch v)"
  by (simp add: rewrite_attribute_def pop_dispatch_def no_indexing_attrs_def)

lemma visit_pop_call:
  assumes "visit None recv = Inr r" and "visit (Some 1) i = Inr i'"
  shows "visit par (Call (Attribute recv ''pop'') [i]) = Inr (Call (pop_dispatch r) [i'])"
  using assms by (simp add: bind_err_def rewrite_attribute_pop)

lemma eval_pop_dispatch_other:
  assumes "builtins_visible s0" and "eval n r s0 = (Inr rv, s1)" and "\<not> is_sequence rv"
  shows "eval n (Call (pop_dispatch r) args) s0 = eval n (Call (Attribute r ''pop'') args) s1"
  using eval_isinstance_seq [OF assms(1,2)] assms(3)
  by (simp add: pop_dispatch_def truthy_def del: eval.simps(11))

lemma eval_name_bound:
  "env s = (x, v) # rest \<Longrightarrow> eval n (Name x) s = (Inr v, s)"
  by (simp add: lookup_name_def)

lemma eval_pop_dispatch_sequence:
  assumes vis: "builtins_visible s0"
    and r1: "eval (Suc n) r s0 = (Inr rv, s1)" and seq: "is_sequence rv"
    and i: "eval (Suc n) i s1 = (Inr iv, s2)" and iv: "as_int iv = Some v"
    and r2: "eval n r (s2\<lparr>env := (antwnc, iv) # env s2\<rparr>) = (Inr rv', s3)"
  shows "eval (Suc n) (Call (pop_dispatch r) [i]) s0 =
           (case getattr rv' ''pop'' of
              Inl e \<Rightarrow> (Inl e, s3\<lparr>env := env s2\<rparr>)
            | Inr m \<Rightarrow>
                if v = 0 then (Inl ZeroDivisionError, s3\<lparr>env := env s2\<rparr>)
                else (case call_value m [VInt (if 0 < v then v - 1 else v)] s3 of
                        (res, s4) \<Rightarrow> (res, s4\<lparr>env := env s2\<rparr>)))"
proof -
  define B where "B = Call (Attribute r ''pop'') [shift_idx (Name antwnc)]"
  have f: "eval (Suc n) (pop_dispatch r) s0 = (Inr (VLambda antwnc B), s1)"
    using eval_isinstance_seq [OF vis r1] seq by (simp add: pop_dispatch_def truthy_def B_def)
  have outer: "eval (Suc n) (Call (pop_dispatch r) [i]) s0 =
                 (case eval n B (s2\<lparr>env := (antwnc, iv) # env s2\<rparr>) of
                    (res, s4) \<Rightarrow> (res, s4\<lparr>env := env s2\<rparr>))"
    by (simp add: f i)
  from eval_env_eq [OF r2] have env3: "env s3 = (antwnc, iv) # env s2" by simp
  have nm: "eval n (Name antwnc) s3 = (Inr iv, s3)"
    by (rule eval_name_bound [OF env3])
  have sh: "eval n (shift_idx (Name antwnc)) s3 =
              (if v = 0 then (Inl ZeroDivisionError, s3)
               else (Inr (VInt (if 0 < v then v - 1 else v)), s3))"
    using eval_shift_idx_pos [OF nm nm iv] eval_shift_idx_neg [OF nm nm nm iv]
      eval_shift_idx_zero [OF nm nm nm] iv
    by (cases "v = 0"; cases "0 < v") auto
  have body: "eval n B (s2\<lparr>env := (antwnc, iv) # env s2\<rparr>) =
              (case getattr rv' ''pop'' of
                 Inl e \<Rightarrow> (Inl e, s3)
               | Inr m \<Rightarrow>
                   if v = 0 then (Inl ZeroDivisionError, s3)
                   else call_value m [VInt (if 0 < v then v - 1 else v)] s3)"
    unfolding B_def
    by (auto simp: r2 sh getattr_def split: sum.splits val.splits simp del: eval.simps(2))
  show ?thesis
    unfolding outer body by (simp split: sum.splits)
qed

section \<open>Properties of the closed-world check\<close>

lemma visit_faults_inside:
  assumes bad: "\<not> types_we_know_how_to_handle sl"
  shows "Subscript v sl \<in> subexprs e \<Longrightarrow> \<exists>err. visit par e = Inl err"
    and "Subscript v sl \<in> subexprs_list es \<Longrightarrow> \<exists>err. visit_list par es = Inl err"
    and "Subscript v sl \<in> subexprs_opt eo \<Longrightarrow> \<exists>err. visit_opt eo = Inl err"
proof (induction par e and par es and eo rule: visit_visit_list_visit_opt.induct)
  case (7 par v' sl')
  then show ?case
    using bad by (auto simp: bind_err_def split: sum.splits)
qed (fastforce simp: bind_err_def split: sum.splits)+

section \<open>Worked examples for the subscript read\<close>

lemma demo_visible: "builtins_visible (demo_printed ps)"
  by (simp add: builtins_visible_def demo_printed_def)

lemma lookup_demo_names:
  "lookup_name (demo_printed ps) ''xs'' = Inr (VList 0)"
  "lookup_name (demo_printed ps) ''d'' = Inr (VDict (Suc 0))"
  by (simp_all add: lookup_name_def demo_printed_def)

lemma eval_demo_names:
  "eval n (Name ''xs'') (demo_printed ps) = (Inr (VList 0), demo_printed ps)"
  "eval n (Name ''d'') (demo_printed ps) = (Inr (VDict (Suc 0)), demo_printed ps)"
  by (simp_all add: lookup_demo_names)

lemma eval_constant_int: "eval n (Constant (CInt k)) s = (Inr (VInt k), s)"
  by (simp add: const_val_def)

lemma eval_printing:
  "eval n (printing k e) (demo_printed ps) = eval n e (demo_printed (ps @ [[VInt k]]))"
  by (simp add: printing_def lookup_name_def builtin_names_def demo_printed_def const_val_def
      call_value_def truthy_def)

lemma getitem_demo:
  "getitem (VList 0) (VInt 0) (demo_printed ps) = (Inr (VInt 7), demo_printed ps)"
  "getitem (VList 0) (VInt 1) (demo_printed ps) = (Inr (VInt 8), demo_printed ps)"
  "getitem (VList 0) (VInt 2) (demo_printed ps) = (Inr (VInt 9), demo_printed ps)"
  "getitem (VDict (Suc 0)) (VInt 1) (demo_printed ps) = (Inr (VStr ''b''), demo_printed ps)"
  by (simp_all add: getitem_def heap_get_def demo_printed_def index_seq_def norm_index_def
      as_int_def dict_get_def)


theorem slice_bounds_shifted_witness:
  "expand_idx (Slice (Some (Constant (CInt 1))) None None)
     = Slice (Some (shift_idx (Constant (CInt 1)))) None None
   \<and> eval 0 (rewrite_subscript (Name ''xs'')
               (Slice (Some (Constant (CInt 1))) (Some (Constant (CInt 3))) None)) demo_state
     = (Inr (VList 2), demo_state\<lparr>heap := heap demo_state @ [OList [VInt 7, VInt 8]]\<rparr>)
   \<and> eval 0 (rewrite_subscript (Name ''xs'') (Slice (Some (Constant (CInt 2))) None None))
        demo_state
     = (Inr (VList 2), demo_state\<lparr>heap := heap demo_state @ [OList [VInt 8, VInt 9]]\<rparr>)"
proof -
  have h: "builtins_visible demo_state
        \<and> eval 0 (Name ''xs'') demo_state = (Inr (VList 0), demo_state) \<and> is_sequence (VList 0)
        \<and> eval 0 (Constant (CInt a)) demo_state = (Inr (VInt a), demo_state) \<and> 0 < a
        \<and> eval 0 (Constant (CInt b)) demo_state = (Inr (VInt b), demo_state) \<and> 0 < b
        \<and> eval_opt 0 None demo_state = (Inr VNone, demo_state)"
    if "0 < a" "0 < b" for a b
    using that
    by (simp add: demo_state_def demo_visible lookup_demo_names is_sequence_def const_val_def)
  have g1: "getitem (VList 0) (VSlice (VInt 0) (VInt 2) VNone) demo_state
              = (Inr (VList 2), demo_state\<lparr>heap := heap demo_state @ [OList [VInt 7, VInt 8]]\<rparr>)"
    by (simp add: getitem_def heap_get_def demo_state_def demo_printed_def slice_seq_def
        slice_bound_def as_int_def adjust_bound_def alloc_def upt_conv_Cons numeral_2_eq_2)
  have g2: "getitem (VList 0) (VSlice (VInt 1) VNone VNone) demo_state
              = (Inr (VList 2), demo_state\<lparr>heap := heap demo_state @ [OList [VInt 8, VInt 9]]\<rparr>)"
    by (simp add: getitem_def heap_get_def demo_state_def demo_printed_def slice_seq_def
        slice_bound_def as_int_def adjust_bound_def alloc_def upt_conv_Cons numeral_2_eq_2)
  from slice_bounds_shifted [where lower = "Some (Constant (CInt 1))" and upper = None
         and step = None and s = demo_state and n = 0 and c = "Name ''xs''" and cv = "VList 0"
         and A = "Constant (CInt 1)" and a = 1 and B = "Constant (CInt 3)" and b = 3
         and stv = VNone]
       slice_bounds_shifted [where lower = None and upper = None
         and step = None and s = demo_state and n = 0 and c = "Name ''xs''" and cv = "VList 0"
         and A = "Constant (CInt 2)" and a = 2 and B = "Constant (CInt 3)" and b = 3
         and stv = VNone]
       h [of 1 3] h [of 2 3] g1 g2
  show ?thesis by simp
qed

theorem subscript_read_reevaluates_witness:
  "eval 0 (rewrite_subscript (printing 1 (Name ''xs'')) (printing 2 (Constant (CInt 2))))
       (demo_printed [])
     = (Inr (VInt 8), demo_printed [[VInt 1], [VInt 1], [VInt 2], [VInt 2]])
   \<and> eval 0 (Subscript (printing 1 (Name ''xs'')) (printing 2 (Constant (CInt 2))))
       (demo_printed [])
     = (Inr (VInt 9), demo_printed [[VInt 1], [VInt 2]])
   \<and> eval 0 (rewrite_subscript (printing 1 (Name ''d'')) (Constant (CInt 1))) (demo_printed [])
     = (Inr (VStr ''b''), demo_printed [[VInt 1], [VInt 1]])"
proof -
  have c1: "eval 0 (printing 1 (Name ''xs'')) (demo_printed []) = (Inr (VList 0), demo_printed [[VInt 1]])"
    and c2: "eval 0 (printing 1 (Name ''xs'')) (demo_printed [[VInt 1]])
               = (Inr (VList 0), demo_printed [[VInt 1], [VInt 1]])"
    and d1: "eval 0 (printing 1 (Name ''d'')) (demo_printed []) = (Inr (VDict (Suc 0)), demo_printed [[VInt 1]])"
    and d2: "eval 0 (printing 1 (Name ''d'')) (demo_printed [[VInt 1]])
               = (Inr (VDict (Suc 0)), demo_printed [[VInt 1], [VInt 1]])"
    by (simp_all only: eval_printing eval_demo_names append.simps)
  have i1: "eval 0 (printing 2 (Constant (CInt 2))) (demo_printed [[VInt 1], [VInt 1]])
              = (Inr (VInt 2), demo_printed [[VInt 1], [VInt 1], [VInt 2]])"
    and i2: "eval 0 (printing 2 (Constant (CInt 2))) (demo_printed [[VInt 1], [VInt 1], [VInt 2]])
              = (Inr (VInt 2), demo_printed [[VInt 1], [VInt 1], [VInt 2], [VInt 2]])"
    and i0: "eval 0 (printing 2 (Constant (CInt 2))) (demo_printed [[VInt 1]])
              = (Inr (VInt 2), demo_printed [[VInt 1], [VInt 2]])"
    by (simp_all only: eval_printing eval_constant_int append.simps)
  have seq: "is_sequence (VList 0)" and nseq: "\<not> is_sequence (VDict (Suc 0))"
    by (simp_all add: is_sequence_def)
  have nsl: "\<not> is_Slice (printing 2 (Constant (CInt 2)))"
    by (simp add: is_Slice_def printing_def)
  from subscript_read_reevaluates [OF demo_visible c1 c2, of "printing 2 (Constant (CInt 2))"
         2 "demo_printed [[VInt 1], [VInt 1], [VInt 2]]" 2
         "demo_printed [[VInt 1], [VInt 1], [VInt 2], [VInt 2]]"]
       seq nsl i1 i2
  have r1: "eval 0 (rewrite_subscript (printing 1 (Name ''xs'')) (printing 2 (Constant (CInt 2))))
              (demo_printed [])
            = (Inr (VInt 8), demo_printed [[VInt 1], [VInt 1], [VInt 2], [VInt 2]])"
    by (simp add: getitem_demo)
  have r2: "eval 0 (Subscript (printing 1 (Name ''xs'')) (printing 2 (Constant (CInt 2))))
              (demo_printed [])
            = (Inr (VInt 9), demo_printed [[VInt 1], [VInt 2]])"
    by (simp add: c1 i0 getitem_demo)
  from subscript_read_reevaluates [OF demo_visible d1 d2, of "Constant (CInt 1)"] nseq
  have r3: "eval 0 (rewrite_subscript (printing 1 (Name ''d'')) (Constant (CInt 1)))
              (demo_printed [])
            = (Inr (VStr ''b''), demo_printed [[VInt 1], [VInt 1]])"
    by (simp add: const_val_def getitem_demo)
  from r1 r2 r3 show ?thesis by simp
qed

section \<open>The receiver of a rewritten \<open>pop\<close> call\<close>

text \<open>
  Claim C6, as the code has it.  For \<open>recv.pop(i)\<close> with one argument the rewriter
  returns the call of a conditional expression on
  \<open>isinstance(recv, (list, tuple, str))\<close>.  The receiver expression is evaluated twice:
  once in that type test and once more for the method lookup.  When the value from the
  type test is not a list, tuple or string, what follows the test is the original
  call, receiver evaluated again and argument unshifted.  When it is one, the argument
  is evaluated once, and then, inside the lambda, the receiver is evaluated again and
  \<open>pop\<close> is called on that second value with the shifted argument; an argument that is
  0 raises \<open>ZeroDivisionError\<close>.
\<close>

theorem pop_receiver_evaluated_twice:
  assumes "visit None recv = Inr r" and "visit (Some 1) i = Inr i'"
  shows "visit par (Call (Attribute recv ''pop'') [i]) = Inr (Call (pop_dispatch r) [i'])
    \<and> (\<forall>n s0 rv s1.
          builtins_visible s0 \<and> eval n r s0 = (Inr rv, s1) \<and> \<not> is_sequence rv \<longrightarrow>
          eval n (Call (pop_dispatch r) [i']) s0 = eval n (Call (Attribute r ''pop'') [i']) s1)
    \<and> (\<forall>n s0 rv s1 iv s2 v rv' s3.
          builtins_visible s0 \<and> eval (Suc n) r s0 = (Inr rv, s1) \<and> is_sequence rv
          \<and> eval (Suc n) i' s1 = (Inr iv, s2) \<and> as_int iv = Some v
          \<and> eval n r (s2\<lparr>env := (antwnc, iv) # env s2\<rparr>) = (Inr rv', s3) \<longrightarrow>
          eval (Suc n) (Call (pop_dispatch r) [i']) s0 =
            (case getattr rv' ''pop'' of
               Inl e \<Rightarrow> (Inl e, s3\<lparr>env := env s2\<rparr>)
             | Inr m \<Rightarrow>
                 if v = 0 then (Inl ZeroDivisionError, s3\<lparr>env := env s2\<rparr>)
                 else (case call_value m [VInt (if 0 < v then v - 1 else v)] s3 of
                         (res, s4) \<Rightarrow> (res, s4\<lparr>env := env s2\<rparr>))))"
proof (intro conjI allI impI)
  show "visit par (Call (Attribute recv ''pop'') [i]) = Inr (Call (pop_dispatch r) [i'])"
    using visit_pop_call [of recv r i i' par] assms by simp
next
  fix n s0 rv s1
  assume "builtins_visible s0 \<and> eval n r s0 = (Inr rv, s1) \<and> \<not> is_sequence rv"
  then show "eval n (Call (pop_dispatch r) [i']) s0 = eval n (Call (Attribute r ''pop'') [i']) s1"
    using eval_pop_dispatch_other [of s0 n r rv s1 "[i']"] by blast
next
  fix n s0 rv s1 iv s2 v rv' s3
  assume "builtins_visible s0 \<and> eval (Suc n) r s0 = (Inr rv, s1) \<and> is_sequence rv
          \<and> eval (Suc n) i' s1 = (Inr iv, s2) \<and> as_int iv = Some v
          \<and> eval n r (s2\<lparr>env := (antwnc, iv) # env s2\<rparr>) = (Inr rv', s3)"
  then show "eval (Suc n) (Call (pop_dispatch r) [i']) s0 =
            (case getattr rv' ''pop'' of
               Inl e \<Rightarrow> (Inl e, s3\<lparr>env := env s2\<rparr>)
             | Inr m \<Rightarrow>
                 if v = 0 then (Inl ZeroDivisionError, s3\<lparr>env := env s2\<rparr>)
                 else (case call_value m [VInt (if 0 < v then v - 1 else v)] s3 of
                         (res, s4) \<Rightarrow> (res, s4\<lparr>env := env s2\<rparr>)))"
    using eval_pop_dispatch_sequence [of s0 n r rv s1 i' iv s2 v rv' s3] by blast
qed

text \<open>
  The claim as worded fails: a receiver that prints when it is evaluated prints once
  in the original call and twice in the rewritten one.
\<close>

theorem pop_receiver_once_counterexample:
  "visit None (Call (Attribute (printing 7 (Name ''xs'')) ''pop'') [Constant (CInt 2)])
     = Inr (Call (pop_dispatch (printing 7 (Name ''xs''))) [Constant (CInt 2)])
   \<and> eval 1 (Call (pop_dispatch (printing 7 (Name ''xs''))) [Constant (CInt 2)]) demo_state
     = (Inr (VInt 8), demo_popped [VInt 7, VInt 9] [[VInt 7], [VInt 7]])
   \<and> eval 1 (Call (Attribute (printing 7 (Name ''xs'')) ''pop'') [Constant (CInt 2)]) demo_state
     = (Inr (VInt 9), demo_popped [VInt 7, VInt 8] [[VInt 7]])"
  by code_simp

theorem pop_receiver_evaluated_twice_witness:
  "visit None (Call (Attribute (Name ''xs'') ''pop'') [Constant (CInt 2)])
     = Inr (Call (pop_dispatch (Name ''xs'')) [Constant (CInt 2)])
   \<and> eval (Suc 0) (Call (pop_dispatch (Name ''xs'')) [Constant (CInt 2)]) demo_state
     = (Inr (VInt 8), demo_popped [VInt 7, VInt 9] [])
   \<and> eval 0 (Call (pop_dispatch (Name ''d'')) [Constant (CInt 1)]) demo_state
     = eval 0 (Call (Attribute (Name ''d'') ''pop'') [Constant (CInt 1)]) demo_state"
proof -
  have vx: "visit None (Name ''xs'') = Inr (Name ''xs'')"
    and vd: "visit None (Name ''d'') = Inr (Name ''d'')"
    and v2: "visit (Some 1) (Constant (CInt 2)) = Inr (Constant (CInt 2))"
    and v1: "visit (Some 1) (Constant (CInt 1)) = Inr (Constant (CInt 1))"
    by simp_all
  note x = pop_receiver_evaluated_twice [OF vx v2, of None]
  note d = pop_receiver_evaluated_twice [OF vd v1, of None]
  let ?s = "demo_state\<lparr>env := (antwnc, VInt 2) # env demo_state\<rparr>"
  have hx: "builtins_visible demo_state
      \<and> eval (Suc 0) (Name ''xs'') demo_state = (Inr (VList 0), demo_state)
      \<and> is_sequence (VList 0)
      \<and> eval (Suc 0) (Constant (CInt 2)) demo_state = (Inr (VInt 2), demo_state)
      \<and> as_int (VInt 2) = Some 2
      \<and> eval 0 (Name ''xs'') ?s = (Inr (VList 0), ?s)"
    by (simp add: demo_state_def builtins_visible_def is_sequence_def const_val_def
        as_int_def lookup_name_def antwnc_def demo_printed_def)
  have hd: "builtins_visible demo_state
      \<and> eval 0 (Name ''d'') demo_state = (Inr (VDict (Suc 0)), demo_state)
      \<and> \<not> is_sequence (VDict (Suc 0))"
    by (simp add: demo_state_def demo_visible lookup_demo_names is_sequence_def)
  from x hx
  have step: "eval (Suc 0) (Call (pop_dispatch (Name ''xs'')) [Constant (CInt 2)]) demo_state =
            (case getattr (VList 0) ''pop'' of
               Inl e \<Rightarrow> (Inl e, ?s\<lparr>env := env demo_state\<rparr>)
             | Inr m \<Rightarrow>
                 if (2::int) = 0 then (Inl ZeroDivisionError, ?s\<lparr>env := env demo_state\<rparr>)
                 else (case call_value m [VInt (if (0::int) < 2 then 2 - 1 else 2)] ?s of
                         (res, s4) \<Rightarrow> (res, s4\<lparr>env := env demo_state\<rparr>)))"
    by blast
  have "(case getattr (VList 0) ''pop'' of
               Inl e \<Rightarrow> (Inl e, ?s\<lparr>env := env demo_state\<rparr>)
             | Inr m \<Rightarrow>
                 if (2::int) = 0 then (Inl ZeroDivisionError, ?s\<lparr>env := env demo_state\<rparr>)
                 else (case call_value m [VInt (if (0::int) < 2 then 2 - 1 else 2)] ?s of
                         (res, s4) \<Rightarrow> (res, s4\<lparr>env := env demo_state\<rparr>)))
        = (Inr (VInt 8), demo_popped [VInt 7, VInt 9] [])"
    by code_simp
  with step
  have r1: "eval (Suc 0) (Call (pop_dispatch (Name ''xs'')) [Constant (CInt 2)]) demo_state
                   = (Inr (VInt 8), demo_popped [VInt 7, VInt 9] [])"
    by (rule trans)
  from d hd
  have r2: "eval 0 (Call (pop_dispatch (Name ''d'')) [Constant (CInt 1)]) demo_state
     = eval 0 (Call (Attribute (Name ''d'') ''pop'') [Constant (CInt 1)]) demo_state"
    by blast
  from x r1 r2 show ?thesis by blast
qed

section \<open>The closed-world check on subscripts\<close>

text \<open>
  Claim C4.  A subscript whose index part is not of a certified kind makes the
  rewriter raise \<open>AssertionError\<close>, as an expression, as the single target of an
  assignment and as the target of an augmented assignment; and the traversal of any
  expression that contains such a subscript ends in a fault, never in a rewritten
  expression.
\<close>

theorem uncertified_index_faults:
  assumes "\<not> types_we_know_how_to_handle sl"
  shows "visit par (Subscript v sl) = Inl AssertionError
         \<and> visit_stmt (Assign [Subscript v sl] rhs) = Inl AssertionError
         \<and> visit_stmt (AugAssign (Subscript v sl) op rhs) = Inl AssertionError
         \<and> (\<forall>e p. Subscript v sl \<in> subexprs e \<longrightarrow> (\<exists>err. visit p e = Inl err))"
  using assms visit_faults_inside(1) [OF assms]
  by (simp add: is_Subscript_def)

theorem uncertified_index_faults_witness:
  "visit None (Subscript (Name ''xs'') (Call (Name ''f'') [Name ''x''])) = Inl AssertionError
   \<and> visit_stmt (Assign [Subscript (Name ''xs'') (Call (Name ''f'') [Name ''x''])]
                  (Constant (CInt 1))) = Inl AssertionError
   \<and> visit_stmt (AugAssign (Subscript (Name ''xs'') (Call (Name ''f'') [Name ''x''])) Add
                  (Constant (CInt 1))) = Inl AssertionError
   \<and> visit None (BinOp (Constant (CInt 1)) Add
                  (Subscript (Name ''xs'') (Call (Name ''f'') [Name ''x''])))
       = Inl AssertionError"
proof -
  have h: "\<not> types_we_know_how_to_handle (Call (Name ''f'') [Name ''x''])"
    by (simp add: types_we_know_how_to_handle_def)
  have "visit None (BinOp (Constant (CInt 1)) Add
                  (Subscript (Name ''xs'') (Call (Name ''f'') [Name ''x''])))
       = Inl AssertionError"
    by (simp add: types_we_know_how_to_handle_def bind_err_def)
  with uncertified_index_faults [OF h, of None "Name ''xs''" "Constant (CInt 1)" Add]
  show ?thesis by simp
qed

section \<open>The unit tests of the source, in the model\<close>

text \<open>
  Tests of \<open>one_based_indexing_unit_tests\<close> that lie in the modelled fragment, rewritten
  by \<open>visit\<close> and evaluated: \<open>(7, 8, 9)[1] == 7\<close>, \<open>"abcde"[4] == "d"\<close>,
  \<open>"abc"[:2] == "a"\<close>, and, with \<open>d\<close> the dict of the demo state, \<open>d[1] == "b"\<close>.
\<close>

lemma source_unit_tests:
  "map_sum id (\<lambda>e. fst (eval 0 e demo_state))
     (visit None (Subscript (PyTuple [Constant (CInt 7), Constant (CInt 8), Constant (CInt 9)])
        (Constant (CInt 1)))) = Inr (Inr (VInt 7))"
  "map_sum id (\<lambda>e. fst (eval 0 e demo_state))
     (visit None (Subscript (Constant (CStr ''abcde'')) (Constant (CInt 4))))
     = Inr (Inr (VStr ''d''))"
  "map_sum id (\<lambda>e. fst (eval 0 e demo_state))
     (visit None (Subscript (Constant (CStr ''abc'')) (Slice None (Some (Constant (CInt 2))) None)))
     = Inr (Inr (VStr ''a''))"
  "map_sum id (\<lambda>e. fst (eval 0 e demo_state))
     (visit None (Subscript (Name ''d'') (Constant (CInt 1)))) = Inr (Inr (VStr ''b''))"
  by code_simp+

section \<open>Properties of the ProgramAssembler\<close>

lemma distinct_dedup_loop: "distinct acc \<Longrightarrow> distinct (dedup_loop acc calls)"
  by (induction calls arbitrary: acc) simp_all

lemma distinct_deduplicated: "distinct (deduplicated fc)"
  by (simp add: deduplicated_def distinct_dedup_loop)

lemma callee_length: "length callee = 10"
  by (simp add: callee_def)

lemma extract_loop_calls_start:
  "extract_loop s idx end spans calls = Inr (spans', calls') \<Longrightarrow>
   startswith (drop idx s) callee \<Longrightarrow>
   list_all (\<lambda>c. startswith c callee) calls \<Longrightarrow>
   list_all (\<lambda>c. startswith c callee) calls'"
proof (induction s idx "end" spans calls rule: extract_loop.induct)
  case (1 s idx "end" spans calls)
  from startswith_append [OF "1.prems"(2)] obtain rest where rest: "drop idx s = callee @ rest"
    by blast
  obtain brk a q d where sc: "scan rest 10 (True, False, 1) = (brk, (a, q, d))"
    by (metis prod_cases3)
  then have sc0: "scan (drop idx s) 0 (False, False, 0) = (brk, (a, q, d))"
    by (simp add: rest scan_callee)
  show ?case
  proof (cases brk)
    case None
    with sc scan_exhausted_depth [of rest 10 False 1 a q d] have "1 \<le> d" by simp
    with "1.prems"(1) sc0 None show ?thesis
      by (simp add: extract_loop.simps [of s idx])
  next
    case (Some e)
    from scan_break_bounds [of rest 10 "(True, False, 1)" e "(a, q, d)"] sc Some
    have e: "10 \<le> e" by simp
    let ?spans = "spans @ [(int idx, int idx + int e + 1)]"
    let ?calls = "calls @ [substring s idx (idx + e + 1)]"
    have "substring s idx (idx + e + 1) = take (e + 1) (callee @ rest)"
      by (simp add: substring_def rest)
    also have "\<dots> = callee @ take (e + 1 - 10) rest"
      using e callee_length by simp
    finally have "startswith (substring s idx (idx + e + 1)) callee"
      by (simp add: startswith_def)
    with "1.prems"(3) have all: "list_all (\<lambda>c. startswith c callee) ?calls"
      by simp
    show ?thesis
    proof (cases "d = 0 \<and> a \<and> \<not> q")
      case False
      with "1.prems"(1) sc0 show ?thesis
        by (simp add: extract_loop.simps [of s idx])
    next
      case True
      show ?thesis
      proof (cases "py_find s callee (idx + 1)")
        case None
        with "1.prems"(1) sc0 Some True all show ?thesis
          by (auto simp: extract_loop.simps [of s idx])
      next
        case (Some idx')
        with "1.prems"(1) sc0 \<open>brk = Some e\<close> True
        have rec: "extract_loop s idx' (Some e) ?spans ?calls = Inr (spans', calls')"
          by (simp add: extract_loop.simps [of s idx])
        have c1: "Some e = (case brk of None \<Rightarrow> end | Some x \<Rightarrow> Some x)"
          using \<open>brk = Some e\<close> by simp
        have c2: "\<not> \<not> (d = 0 \<and> a \<and> \<not> q)"
          using True by simp
        show ?thesis
          by (rule "1.IH" [OF sc0 [symmetric] refl refl c1 c2 refl refl refl Some rec
                py_find_startswith [OF Some] all])
      qed
    qed
  qed
qed

lemma extract_calls_start:
  assumes "extract_calls s = Inr (spans, calls)"
  shows "list_all (\<lambda>c. startswith c callee) calls"
proof (cases "py_find s callee 0")
  case None
  with assms show ?thesis by (simp add: extract_calls_def py_contains_def)
next
  case (Some idx)
  with assms have "extract_loop s idx None [] [] = Inr (spans, calls)"
    by (simp add: extract_calls_def py_contains_def)
  from extract_loop_calls_start [OF this py_find_startswith [OF Some]] show ?thesis by simp
qed

lemma assemble_unfold:
  assumes hints: "strip_hints rt (remove_docstrings (prompt obj) @ canonical_solution obj) = Inr ctx"
    and split: "py_split (test obj) (''def check(candidate):'' @ [newline]) = [hdr, test_body]"
    and calls: "extract_calls test_body = Inr (spans, calls)"
    and ren: "renamed obj fn_name ctx = (context, entry)"
    and fc: "fc = map (format_call entry) calls"
  shows "assemble_program_with_calls rt obj (Some pf) fn_name =
           (case filter_loop rt (Some pf) context (enumerate 0 (deduplicated fc))
                   ([], [], \<not> distinct fc) of
              Inl e \<Rightarrow> Inl e
            | Inr (idxs, kept, filtered) \<Rightarrow>
                (case final_run rt obj (context @ [newline, newline] @ py_join [newline] kept)
                        filtered (length kept) of
                   Inl e \<Rightarrow> Inl e
                 | Inr u \<Rightarrow> Inr (context @ [newline, newline] @ py_join [newline] kept, idxs)))"
proof -
  have st: "list_all (\<lambda>c. startswith c callee) calls"
    by (rule extract_calls_start [OF calls])
  have fc': "map (\<lambda>c. ''print(['' @ entry @ drop (length ''candidate'') c @ ''])'') calls = fc"
    by (simp add: fc format_call_def)
  have ren': "(case fn_name of
                 None \<Rightarrow> (ctx, entry_point obj)
               | Some fn \<Rightarrow> (py_replace ctx (entry_point obj @ ''('') (fn @ ''(''), fn))
              = (context, entry)"
    using ren by (simp add: renamed_def)
  have dd: "distinct (deduplicated fc)"
    by (rule distinct_deduplicated)
  show ?thesis
    unfolding assemble_program_with_calls_def
    apply (simp only: hints sum.case ren' Let_def prod.case split list.case calls st fc'
        not_True_eq_False if_False)
    apply (cases "distinct fc")
     apply (simp_all add: deduplicated_def distinct_dedup_loop final_run_def
        split: sum.splits option.splits prod.splits)
    done
qed

text \<open>
  Claim C5, as the code has it.  Given a perturbation identifier, a record whose
  annotations can be stripped and whose test splits at the header of the checking
  routine into calls that \<open>extract_calls\<close> finds, the assembler evaluates each call of
  the deduplicated list of formatted calls on its own under that perturbation.  A call
  whose evaluation raises \<open>ZeroDivisionError\<close>, the fault that the index shift raises
  for index 0, is dropped, whatever raised that fault.  When every call is dropped or
  returns one line, the assembler goes on to its last run with the program of the
  calls that were not dropped, and what it then returns is that program and, for each
  of these calls, its index into the deduplicated list.  When the evaluation of a call
  raises a fault of any other kind, and the calls before it were dropped or returned
  one line, the assembler raises that same fault.
\<close>

theorem assembler_drops_zero_division_faults:
  assumes "strip_hints rt (remove_docstrings (prompt obj) @ canonical_solution obj) = Inr ctx"
    and "py_split (test obj) (''def check(candidate):'' @ [newline]) = [hdr, test_body]"
    and "extract_calls test_body = Inr (spans, calls)"
    and "renamed obj fn_name ctx = (context, entry)"
    and "fc = map (format_call entry) calls"
  shows
    "((\<forall>c \<in> set (deduplicated fc).
         dropped rt (Some pf) context c \<or> survives rt (Some pf) context c) \<longrightarrow>
        assemble_program_with_calls rt obj (Some pf) fn_name =
          (case final_run rt obj
                  (context @ [newline, newline]
                     @ py_join [newline] (map snd (surviving rt (Some pf) context (deduplicated fc))))
                  (\<not> distinct fc \<or> (\<exists>c \<in> set (deduplicated fc). dropped rt (Some pf) context c))
                  (length (surviving rt (Some pf) context (deduplicated fc))) of
             Inl e \<Rightarrow> Inl e
           | Inr u \<Rightarrow>
               Inr (context @ [newline, newline]
                      @ py_join [newline]
                          (map snd (surviving rt (Some pf) context (deduplicated fc))),
                    map fst (surviving rt (Some pf) context (deduplicated fc))))
        \<and> (\<forall>(i, c) \<in> set (surviving rt (Some pf) context (deduplicated fc)).
              i < length (deduplicated fc) \<and> deduplicated fc ! i = c))
     \<and> (\<forall>pre c post e.
           deduplicated fc = pre @ c # post
           \<and> (\<forall>c' \<in> set pre. dropped rt (Some pf) context c' \<or> survives rt (Some pf) context c')
           \<and> eval_program_with_calls rt (context @ [newline, newline] @ c) (Some pf) True = Inl e
           \<and> e \<noteq> ZeroDivisionError \<longrightarrow>
           assemble_program_with_calls rt obj (Some pf) fn_name = Inl e)"
proof (intro conjI impI allI)
  assume all: "\<forall>c \<in> set (deduplicated fc).
                 dropped rt (Some pf) context c \<or> survives rt (Some pf) context c"
  from filter_loop_all [OF all, of 0 "[]" "[]" "\<not> distinct fc"]
  have loop: "filter_loop rt (Some pf) context (enumerate 0 (deduplicated fc))
                ([], [], \<not> distinct fc)
              = Inr (map fst (surviving rt (Some pf) context (deduplicated fc)),
                     map snd (surviving rt (Some pf) context (deduplicated fc)),
                     \<not> distinct fc \<or> (\<exists>c \<in> set (deduplicated fc). dropped rt (Some pf) context c))"
    by (simp add: surviving_def)
  show "assemble_program_with_calls rt obj (Some pf) fn_name =
          (case final_run rt obj
                  (context @ [newline, newline]
                     @ py_join [newline] (map snd (surviving rt (Some pf) context (deduplicated fc))))
                  (\<not> distinct fc \<or> (\<exists>c \<in> set (deduplicated fc). dropped rt (Some pf) context c))
                  (length (surviving rt (Some pf) context (deduplicated fc))) of
             Inl e \<Rightarrow> Inl e
           | Inr u \<Rightarrow>
               Inr (context @ [newline, newline]
                      @ py_join [newline]
                          (map snd (surviving rt (Some pf) context (deduplicated fc))),
                    map fst (surviving rt (Some pf) context (deduplicated fc))))"
    by (simp only: assemble_unfold [OF assms] loop sum.case prod.case length_map)
next
  show "\<forall>(i, c) \<in> set (surviving rt (Some pf) context (deduplicated fc)).
          i < length (deduplicated fc) \<and> deduplicated fc ! i = c"
    unfolding surviving_def
    using enumerate_filter_nth [of _ _ "\<lambda>(i, c). \<not> dropped rt (Some pf) context c" "deduplicated fc"]
    by blast
next
  fix pre c post e
  assume h: "deduplicated fc = pre @ c # post
           \<and> (\<forall>c' \<in> set pre. dropped rt (Some pf) context c' \<or> survives rt (Some pf) context c')
           \<and> eval_program_with_calls rt (context @ [newline, newline] @ c) (Some pf) True = Inl e
           \<and> e \<noteq> ZeroDivisionError"
  then have "filter_loop rt (Some pf) context (enumerate 0 (deduplicated fc))
               ([], [], \<not> distinct fc) = Inl e"
    using filter_loop_propagates [of pre rt "Some pf" "context" c e 0 post "[]" "[]" "\<not> distinct fc"]
    by simp
  then show "assemble_program_with_calls rt obj (Some pf) fn_name = Inl e"
    by (simp only: assemble_unfold [OF assms] sum.case)
qed

text \<open>
  The claim as worded fails for a fault that is not the index-zero fault: in the
  record above the rewritten \<open>xs.pop(2)\<close> passes its index check and returns 8, the
  division of the solution then raises \<open>ZeroDivisionError\<close>, and the assembler drops
  the call \<open>f([7, 8, 9])\<close> and returns normally instead of raising that fault.
\<close>

theorem program_fault_dropped_counterexample:
  "visit None arith_body = Inr arith_body_rewritten
   \<and> eval 1 (Call (pop_dispatch (Name ''xs'')) [Constant (CInt 2)]) demo_state
       = (Inr (VInt 8), demo_popped [VInt 7, VInt 9] [])
   \<and> eval 1 arith_body_rewritten demo_state
       = (Inl ZeroDivisionError, demo_popped [VInt 7, VInt 9] [])
   \<and> assemble_program_with_calls (arith_runtime ZeroDivisionError) arith_benchmark
         (Some ''one_based_indexing'') None
       = Inr (arith_context @ [newline, newline] @ ''print([f([7, 9, 10])])'', [1])"
  by code_simp

theorem assembler_drops_zero_division_faults_witness:
  "assemble_program_with_calls (arith_runtime ZeroDivisionError) arith_benchmark
       (Some ''one_based_indexing'') None
     = Inr (arith_context @ [newline, newline] @ ''print([f([7, 9, 10])])'', [1])
   \<and> assemble_program_with_calls (arith_runtime TypeError) arith_benchmark
       (Some ''one_based_indexing'') None
     = Inl TypeError"
proof -
  let ?pf = "Some ''one_based_indexing''"
  let ?body = "''    assert candidate([7, 8, 9]) == 6'' @ [newline]
                 @ ''    assert candidate([7, 9, 10]) == 3'' @ [newline]"
  let ?calls = "[''candidate([7, 8, 9])'', ''candidate([7, 9, 10])'']"
  let ?fc = "map (format_call ''f'') ?calls"
  have h1: "strip_hints (arith_runtime x)
              (remove_docstrings (prompt arith_benchmark) @ canonical_solution arith_benchmark)
            = Inr arith_context" for x
    by (simp add: arith_runtime_def) code_simp
  have h2: "py_split (test arith_benchmark) (''def check(candidate):'' @ [newline]) = [[], ?body]"
    by code_simp
  have h3: "extract_calls ?body = Inr ([(11, 31), (48, 69)], ?calls)"
    by code_simp
  have h4: "renamed arith_benchmark None arith_context = (arith_context, ''f'')"
    by (simp add: renamed_def arith_benchmark_def)
  have dd: "deduplicated ?fc = [''print([f([7, 8, 9])])'', ''print([f([7, 9, 10])])'']"
    by code_simp
  have d0: "dropped (arith_runtime ZeroDivisionError) ?pf arith_context ''print([f([7, 8, 9])])''"
    by code_simp
  have e0: "eval_program_with_calls (arith_runtime TypeError)
              (arith_context @ [newline, newline] @ ''print([f([7, 8, 9])])'') ?pf True
            = Inl TypeError"
    by code_simp
  have "eval_program_with_calls (arith_runtime ZeroDivisionError)
              (arith_context @ [newline, newline] @ ''print([f([7, 9, 10])])'') ?pf True
            = Inr (Some [''[6]''])"
    by code_simp
  then have s1: "survives (arith_runtime ZeroDivisionError) ?pf arith_context
                   ''print([f([7, 9, 10])])''"
    unfolding survives_def by blast
  have all: "\<forall>c \<in> set (deduplicated ?fc).
               dropped (arith_runtime ZeroDivisionError) ?pf arith_context c
               \<or> survives (arith_runtime ZeroDivisionError) ?pf arith_context c"
    unfolding dd using d0 s1 by simp
  note A = assembler_drops_zero_division_faults
             [OF h1 h2 h3 h4 refl, of ZeroDivisionError "''one_based_indexing''"]
  note B = assembler_drops_zero_division_faults
             [OF h1 h2 h3 h4 refl, of TypeError "''one_based_indexing''"]
  have rhs: "(case final_run (arith_runtime ZeroDivisionError) arith_benchmark
                  (arith_context @ [newline, newline]
                     @ py_join [newline]
                         (map snd (surviving (arith_runtime ZeroDivisionError) ?pf arith_context
                                     (deduplicated ?fc))))
                  (\<not> distinct ?fc
                   \<or> (\<exists>c \<in> set (deduplicated ?fc).
                         dropped (arith_runtime ZeroDivisionError) ?pf arith_context c))
                  (length (surviving (arith_runtime ZeroDivisionError) ?pf arith_context
                             (deduplicated ?fc))) of
             Inl e \<Rightarrow> Inl e
           | Inr u \<Rightarrow>
               Inr (arith_context @ [newline, newline]
                      @ py_join [newline]
                          (map snd (surviving (arith_runtime ZeroDivisionError) ?pf arith_context
                                      (deduplicated ?fc))),
                    map fst (surviving (arith_runtime ZeroDivisionError) ?pf arith_context
                               (deduplicated ?fc))))
          = Inr (arith_context @ [newline, newline] @ ''print([f([7, 9, 10])])'', [1])"
    by code_simp
  from A all have step: "assemble_program_with_calls (arith_runtime ZeroDivisionError) arith_benchmark
       ?pf None =
          (case final_run (arith_runtime ZeroDivisionError) arith_benchmark
                  (arith_context @ [newline, newline]
                     @ py_join [newline]
                         (map snd (surviving (arith_runtime ZeroDivisionError) ?pf arith_context
                                     (deduplicated ?fc))))
                  (\<not> distinct ?fc
                   \<or> (\<exists>c \<in> set (deduplicated ?fc).
                         dropped (arith_runtime ZeroDivisionError) ?pf arith_context c))
                  (length (surviving (arith_runtime ZeroDivisionError) ?pf arith_context
                             (deduplicated ?fc))) of
             Inl e \<Rightarrow> Inl e
           | Inr u \<Rightarrow>
               Inr (arith_context @ [newline, newline]
                      @ py_join [newline]
                          (map snd (surviving (arith_runtime ZeroDivisionError) ?pf arith_context
                                      (deduplicated ?fc))),
                    map fst (surviving (arith_runtime ZeroDivisionError) ?pf arith_context
                               (deduplicated ?fc))))"
    by blast
  from step rhs have r1: "assemble_program_with_calls (arith_runtime ZeroDivisionError) arith_benchmark
       ?pf None = Inr (arith_context @ [newline, newline] @ ''print([f([7, 9, 10])])'', [1])"
    by (rule trans)
  have hB: "deduplicated ?fc = [] @ ''print([f([7, 8, 9])])'' # [''print([f([7, 9, 10])])'']
           \<and> (\<forall>c' \<in> set []. dropped (arith_runtime TypeError) ?pf arith_context c'
                 \<or> survives (arith_runtime TypeError) ?pf arith_context c')
           \<and> eval_program_with_calls (arith_runtime TypeError)
                (arith_context @ [newline, newline] @ ''print([f([7, 8, 9])])'') ?pf True
               = Inl TypeError
           \<and> TypeError \<noteq> ZeroDivisionError"
    unfolding dd using e0 by simp
  from B hB have r2: "assemble_program_with_calls (arith_runtime TypeError) arith_benchmark
       ?pf None = Inl TypeError"
    by blast
  from r1 r2 show ?thesis by simp
qed

end
